theory Spec2Isabelle
  imports Complex_Main "HOL-Library.Word" "HOL-Library.Log_Nat"
begin

unbundle bit_operations_syntax

section \<open>JavaScript values\<close>

text \<open>
  A JavaScript string is a sequence of UTF-16 code units. String literals of the source
  are ASCII and are written \<open>lit ''...''\<close>.
\<close>

type_synonym jsstring = "16 word list"

definition lit :: "string \<Rightarrow> jsstring" where
  "lit s = map of_char s"

text \<open>
  A JavaScript number is an IEEE double. The model keeps the three non-finite values apart
  and takes a finite number as the rational it denotes (\<open>-0\<close> and \<open>0\<close> are the same
  rational; the source never tells them apart: both are falsy, both pass \<open>assertTime\<close>).
  Every integer of absolute value up to \<open>2 ^ 53\<close> is a double, so the time range
  \<open>0 .. 2 ^ 48 - 1\<close> is covered exactly. A quotient is rounded to the nearest double, as
  IEEE 754 division does (\<open>to_double\<close> below).
\<close>

datatype jsnum = Fin rat | NaN | PosInf | NegInf

datatype jsval =
    JUndefined
  | JNull
  | JBoolean bool
  | JNumber jsnum
  | JBigInt int
  | JString jsstring
  | JSymbol
  | JFunction
  | JArray "jsval list"
  | JObject "(jsstring \<times> jsval) list"

text \<open>
  What the source throws: \<open>new Error(message)\<close>; the \<open>TypeError\<close> the engine raises when
  a property of \<open>null\<close> or \<open>undefined\<close> is read; an error of \<open>fs.stat\<close> or
  \<open>fs.utimes\<close>, passed on as it is (its code, such as \<open>ENOENT\<close>).
\<close>

datatype error = Error jsstring | TypeError | SystemError jsstring

text \<open>The operator \<open>typeof\<close>.\<close>

fun typeof :: "jsval \<Rightarrow> string" where
  "typeof JUndefined = ''undefined''"
| "typeof JNull = ''object''"
| "typeof (JBoolean b) = ''boolean''"
| "typeof (JNumber n) = ''number''"
| "typeof (JBigInt i) = ''bigint''"
| "typeof (JString s) = ''string''"
| "typeof JSymbol = ''symbol''"
| "typeof JFunction = ''function''"
| "typeof (JArray xs) = ''object''"
| "typeof (JObject ps) = ''object''"

text \<open>
  Reading a named property \<open>v.k\<close>: of \<open>null\<close> and \<open>undefined\<close> it raises; an object gives
  the value it holds under the name, \<open>undefined\<close> when it holds none; the names read by
  the source (\<open>btime\<close>, \<open>mtime\<close>, \<open>atime\<close>) are no property of an array or of a primitive.
\<close>

fun get_prop :: "jsval \<Rightarrow> jsstring \<Rightarrow> error + jsval" where
  "get_prop JUndefined k = Inl TypeError"
| "get_prop JNull k = Inl TypeError"
| "get_prop (JObject ps) k = (case map_of ps k of None \<Rightarrow> Inr JUndefined | Some v \<Rightarrow> Inr v)"
| "get_prop v k = Inr JUndefined"

text \<open>Decimal digits of a number in a template literal or a string concatenation.\<close>

fun show_nat :: "nat \<Rightarrow> jsstring" where
  "show_nat n = (if n < 10 then [of_nat (48 + n)]
                 else show_nat (n div 10) @ [of_nat (48 + n mod 10)])"

declare show_nat.simps [simp del]

definition show_int :: "int \<Rightarrow> jsstring" where
  "show_int i = (if i < 0 then lit ''-'' @ show_nat (nat (- i)) else show_nat (nat i))"

section \<open>Validation\<close>

text \<open>
  \<open>assertPath(key, value)\<close>. Where the source returns normally the value is a string, and
  the model returns it as one. \<open>value.indexOf('\u0000') !== -1\<close> holds when the code unit
  0 occurs in the string.
\<close>

fun assertPath :: "jsstring \<Rightarrow> jsval \<Rightarrow> error + jsstring" where
  "assertPath key (JString s) =
     (if length s = 0 then Inl (Error (key @ lit '' must not be empty''))
      else if 0 \<in> set s then Inl (Error (key @ lit '' must be a string without null bytes''))
      else Inr s)"
| "assertPath key v = Inl (Error (key @ lit '' must be a string''))"

text \<open>
  \<open>assertTime(key, value)\<close>. \<open>Math.floor(value) !== value\<close> holds for \<open>NaN\<close> (which
  differs from itself) and for every finite number that is no integer; the infinities are
  their own floor. In the last branch the source builds the message as
  \<open>key + ' must not be more than ' + Math.pow(2, 48) - 1\<close>, which JavaScript reads as
  \<open>(key + ' must not be more than ' + 281474976710656) - 1\<close>: a string that is no numeric
  literal, minus one, is \<open>NaN\<close>, and \<open>new Error(NaN)\<close> has the message \<open>NaN\<close>.
\<close>

fun floor_differs :: "jsnum \<Rightarrow> bool" where
  "floor_differs (Fin r) = (of_int \<lfloor>r\<rfloor> \<noteq> r)"
| "floor_differs NaN = True"
| "floor_differs PosInf = False"
| "floor_differs NegInf = False"

fun js_less :: "jsnum \<Rightarrow> rat \<Rightarrow> bool" where
  "js_less (Fin r) c = (r < c)"
| "js_less NaN c = False"
| "js_less PosInf c = False"
| "js_less NegInf c = True"

fun js_greater :: "jsnum \<Rightarrow> rat \<Rightarrow> bool" where
  "js_greater (Fin r) c = (r > c)"
| "js_greater NaN c = False"
| "js_greater PosInf c = True"
| "js_greater NegInf c = False"

fun assertTime :: "jsstring \<Rightarrow> jsval \<Rightarrow> error + unit" where
  "assertTime key JUndefined = Inr ()"
| "assertTime key (JNumber n) =
     (if floor_differs n then Inl (Error (key @ lit '' must be an integer''))
      else if js_less n 0 then Inl (Error (key @ lit '' must be a positive integer''))
      else if js_greater n (2 ^ 48 - 1) then Inl (Error (lit ''NaN''))
      else Inr ())"
| "assertTime key v = Inl (Error (key @ lit '' must be a number or undefined''))"

text \<open>
  \<open>normalizePaths(paths)\<close>. The loop over an array checks the elements from index 0
  upwards, under the label \<open>paths[i]\<close>, and stops at the first that fails.
\<close>

fun normalizeArray :: "nat \<Rightarrow> jsval list \<Rightarrow> error + jsstring list" where
  "normalizeArray i [] = Inr []"
| "normalizeArray i (v # vs) =
     (case assertPath (lit ''paths['' @ show_nat i @ lit '']'') v of
        Inl e \<Rightarrow> Inl e
      | Inr s \<Rightarrow> (case normalizeArray (i + 1) vs of
                    Inl e \<Rightarrow> Inl e
                  | Inr ss \<Rightarrow> Inr (s # ss)))"

fun normalizePaths :: "jsval \<Rightarrow> error + jsstring list" where
  "normalizePaths (JString s) =
     (case assertPath (lit ''path'') (JString s) of Inl e \<Rightarrow> Inl e | Inr t \<Rightarrow> Inr [t])"
| "normalizePaths (JArray vs) = normalizeArray 0 vs"
| "normalizePaths v = Inl (Error (lit ''path must be a string or array''))"

section \<open>The plan: full times and flags\<close>

record times =
  btime :: jsnum
  mtime :: jsnum
  atime :: jsnum

text \<open>
  \<open>value || 0\<close> on a value that passed \<open>assertTime\<close>: it is \<open>undefined\<close> or a number,
  and the falsy numbers are \<open>0\<close> and \<open>NaN\<close>.
\<close>

fun truthy :: "jsnum \<Rightarrow> bool" where
  "truthy (Fin r) = (r \<noteq> 0)"
| "truthy NaN = False"
| "truthy PosInf = True"
| "truthy NegInf = True"

fun or_zero :: "jsval \<Rightarrow> jsnum" where
  "or_zero (JNumber n) = (if truthy n then n else Fin 0)"
| "or_zero v = Fin 0"

text \<open>
  \<open>getFullOptions(options)\<close>. Each argument \<open>options.btime\<close> is read before
  \<open>assertTime\<close> is called with it.
\<close>

definition getFullOptions :: "jsval \<Rightarrow> error + times" where
  "getFullOptions options =
     (if typeof options \<noteq> ''object'' then Inl (Error (lit ''options must be an object''))
      else case get_prop options (lit ''btime'') of Inl e \<Rightarrow> Inl e | Inr b \<Rightarrow>
           case assertTime (lit ''btime'') b of Inl e \<Rightarrow> Inl e | Inr u1 \<Rightarrow>
           case get_prop options (lit ''mtime'') of Inl e \<Rightarrow> Inl e | Inr m \<Rightarrow>
           case assertTime (lit ''mtime'') m of Inl e \<Rightarrow> Inl e | Inr u2 \<Rightarrow>
           case get_prop options (lit ''atime'') of Inl e \<Rightarrow> Inl e | Inr a \<Rightarrow>
           case assertTime (lit ''atime'') a of Inl e \<Rightarrow> Inl e | Inr u3 \<Rightarrow>
           Inr \<lparr>btime = or_zero b, mtime = or_zero m, atime = or_zero a\<rparr>)"

definition getFlags :: "times \<Rightarrow> nat" where
  "getFlags options =
     (let flags = 0;
          flags = (if truthy (btime options) then flags OR 1 else flags);
          flags = (if truthy (mtime options) then flags OR 2 else flags);
          flags = (if truthy (atime options) then flags OR 4 else flags)
      in flags)"

section \<open>The world outside\<close>

text \<open>
  What the module requires and does not define: \<open>process.platform\<close>, \<open>path._makeLong\<close>,
  \<open>fs.stat\<close> (of whose result the source reads \<open>mtime.getTime()\<close> only),
  \<open>fs.utimes\<close> and the native \<open>binding.utimes\<close>, which hands a status to its callback.
  They are parameters, over a world \<open>'w\<close> that they read and change.
\<close>

record 'w env =
  platform :: jsstring
  makeLong :: "jsstring \<Rightarrow> jsstring"
  fs_stat :: "jsstring \<Rightarrow> 'w \<Rightarrow> (error + jsnum) \<times> 'w"
  fs_utimes :: "jsstring \<Rightarrow> jsnum \<Rightarrow> jsnum \<Rightarrow> 'w \<Rightarrow> (error + unit) \<times> 'w"
  binding_utimes :: "8 word list \<Rightarrow> nat \<Rightarrow> jsnum \<Rightarrow> jsnum \<Rightarrow> jsnum \<Rightarrow> 'w \<Rightarrow> int \<times> 'w"

text \<open>Every call that leaves the module is logged, in order, beside the world.\<close>

datatype call =
    Stat jsstring
  | Utimes jsstring jsnum jsnum
  | Binding "8 word list" nat jsnum jsnum jsnum

type_synonym 'w state = "'w \<times> call list"

definition stat :: "'w env \<Rightarrow> jsstring \<Rightarrow> 'w state \<Rightarrow> (error + jsnum) \<times> 'w state" where
  "stat env target s =
     (case fs_stat env target (fst s) of
        (r, w') \<Rightarrow> (r, (w', snd s @ [Stat target])))"

definition utimes :: "'w env \<Rightarrow> jsstring \<Rightarrow> jsnum \<Rightarrow> jsnum \<Rightarrow> 'w state \<Rightarrow> (error + unit) \<times> 'w state" where
  "utimes env target a m s =
     (case fs_utimes env target a m (fst s) of
        (r, w') \<Rightarrow> (r, (w', snd s @ [Utimes target a m])))"

text \<open>
  Rounding a rational to the nearest double, ties to the even significand: the binary64
  format has significands of 53 bits, least exponent \<open>- 1074\<close> for the last bit (the
  subnormal numbers) and overflows to an infinity at \<open>2 ^ 1024\<close>. \<open>floor_log2 q\<close> is
  the exponent of the leading bit of a positive \<open>q\<close>.
\<close>

definition pow2 :: "int \<Rightarrow> rat" where
  "pow2 e = (if 0 \<le> e then 2 ^ nat e else 1 / 2 ^ nat (- e))"

definition floor_log2 :: "rat \<Rightarrow> int" where
  "floor_log2 q = (if 1 \<le> q then bitlen \<lfloor>q\<rfloor> - 1 else - bitlen (\<lceil>1 / q\<rceil> - 1))"

definition round_half_even :: "rat \<Rightarrow> int" where
  "round_half_even x =
     (let n = \<lfloor>x\<rfloor>; d = x - of_int n
      in if d < 1 / 2 then n else if 1 / 2 < d then n + 1 else if even n then n else n + 1)"

definition to_double :: "rat \<Rightarrow> jsnum" where
  "to_double q =
     (if q = 0 then Fin 0
      else let e = max (floor_log2 \<bar>q\<bar> - 52) (- 1074);
               r = of_int (round_half_even (\<bar>q\<bar> / pow2 e)) * pow2 e
           in if pow2 1024 \<le> r then (if 0 < q then PosInf else NegInf)
              else Fin (sgn q * r))"

text \<open>
  \<open>value / 1000\<close> on numbers: the double nearest to the quotient. (The quotient of a
  negative number that underflows is \<open>-0\<close>, here 0; the times of the source are integers
  or \<open>NaN\<close>, whose quotients do not underflow.)
\<close>

fun div1000 :: "jsnum \<Rightarrow> jsnum" where
  "div1000 (Fin r) = to_double (r / 1000)"
| "div1000 NaN = NaN"
| "div1000 PosInf = PosInf"
| "div1000 NegInf = NegInf"

section \<open>The native call adapter\<close>

text \<open>
  UTF-8, as \<open>Buffer\<close> writes it: a surrogate pair is one code point of four bytes, a
  surrogate that stands alone is written as U+FFFD.
\<close>

definition utf8_bytes :: "nat \<Rightarrow> 8 word list" where
  "utf8_bytes cp =
     (if cp < 0x80 then [of_nat cp]
      else if cp < 0x800 then [of_nat (0xC0 + cp div 64), of_nat (0x80 + cp mod 64)]
      else if cp < 0x10000 then
        [of_nat (0xE0 + cp div 4096), of_nat (0x80 + cp div 64 mod 64), of_nat (0x80 + cp mod 64)]
      else
        [of_nat (0xF0 + cp div 262144), of_nat (0x80 + cp div 4096 mod 64),
         of_nat (0x80 + cp div 64 mod 64), of_nat (0x80 + cp mod 64)])"

definition is_high :: "16 word \<Rightarrow> bool" where
  "is_high c = (0xD800 \<le> unat c \<and> unat c < 0xDC00)"

definition is_low :: "16 word \<Rightarrow> bool" where
  "is_low c = (0xDC00 \<le> unat c \<and> unat c < 0xE000)"

fun utf8_encode :: "jsstring \<Rightarrow> 8 word list" where
  "utf8_encode [] = []"
| "utf8_encode [c] =
     (if is_high c \<or> is_low c then [0xEF, 0xBF, 0xBD] else utf8_bytes (unat c))"
| "utf8_encode (c # d # ds) =
     (if is_high c \<and> is_low d then
        utf8_bytes (0x10000 + (unat c - 0xD800) * 0x400 + (unat d - 0xDC00)) @ utf8_encode ds
      else if is_high c \<or> is_low c then [0xEF, 0xBF, 0xBD] @ utf8_encode (d # ds)
      else utf8_bytes (unat c) @ utf8_encode (d # ds))"

definition byteLength :: "jsstring \<Rightarrow> nat" where
  "byteLength s = length (utf8_encode s)"

definition Buffer_alloc :: "nat \<Rightarrow> 8 word list" where
  "Buffer_alloc n = replicate n 0"

text \<open>
  \<open>buffer.write(string, offset, length, 'utf-8')\<close> puts at most \<open>length\<close> bytes of the
  encoding at \<open>offset\<close>, within the buffer. (Where the bytes do not all fit, \<open>Buffer\<close>
  also leaves out a character cut in the middle; \<open>pathBuffer\<close> gives it room for all.)
\<close>

definition Buffer_write :: "8 word list \<Rightarrow> jsstring \<Rightarrow> nat \<Rightarrow> nat \<Rightarrow> 8 word list" where
  "Buffer_write buffer s offset len =
     (let bytes = take (min len (length buffer - offset)) (utf8_encode s)
      in take offset buffer @ bytes @ drop (offset + length bytes) buffer)"

text \<open>\<open>buffer.indexOf(value)\<close>: the first index holding the byte, \<open>-1\<close> when none does.\<close>

fun Buffer_indexOf :: "8 word list \<Rightarrow> 8 word \<Rightarrow> int" where
  "Buffer_indexOf [] v = - 1"
| "Buffer_indexOf (b # bs) v =
     (if b = v then 0
      else (let i = Buffer_indexOf bs v in if i = - 1 then - 1 else i + 1))"

definition pathBuffer :: "(jsstring \<Rightarrow> jsstring) \<Rightarrow> jsstring \<Rightarrow> error + 8 word list" where
  "pathBuffer make_long target =
     (let targetLong = make_long target;
          buffer = Buffer_alloc (byteLength targetLong + 1);
          buffer = Buffer_write buffer targetLong 0 (length buffer - 1);
          buffer = buffer[length buffer - 1 := 0]
      in if Buffer_indexOf buffer 0 \<noteq> int (length buffer) - 1
         then Inl (Error (lit ''path must be a string without null bytes''))
         else Inr buffer)"

text \<open>
  \<open>callBinding(path, times, flags)\<close>. The buffer is built first, as an argument of the
  native call; an error thrown there rejects the promise and the binding is not called.
\<close>

definition callBinding :: "'w env \<Rightarrow> jsstring \<Rightarrow> times \<Rightarrow> nat \<Rightarrow> 'w state \<Rightarrow> (error + unit) \<times> 'w state" where
  "callBinding env path tms flags s =
     (case pathBuffer (makeLong env) path of
        Inl e \<Rightarrow> (Inl e, s)
      | Inr buffer \<Rightarrow>
          (case binding_utimes env buffer flags (btime tms) (mtime tms) (atime tms) (fst s) of
             (result, w') \<Rightarrow>
               (if result \<noteq> 0
                then Inl (Error (lit ''('' @ show_int result @ lit ''), utimes('' @ path @ lit '')''))
                else Inr (),
                (w', snd s @ [Binding buffer flags (btime tms) (mtime tms) (atime tms)]))))"

section \<open>Setting the times\<close>

text \<open>The body of the loop of \<open>set\<close>, for one target.\<close>

definition set_target :: "'w env \<Rightarrow> times \<Rightarrow> nat \<Rightarrow> jsstring \<Rightarrow> 'w state \<Rightarrow> (error + unit) \<times> 'w state" where
  "set_target env tms flags target s =
     (if platform env = lit ''win32'' \<or> platform env = lit ''darwin''
      then callBinding env target tms flags s
      else if flags AND 2 \<noteq> 0 then
        (let atime_arg = (if flags AND 4 \<noteq> 0 then atime tms else mtime tms)
         in utimes env target (div1000 atime_arg) (div1000 (mtime tms)) s)
      else
        (case stat env target s of
           (Inl e, s1) \<Rightarrow> (Inl e, s1)
         | (Inr mtime_read, s1) \<Rightarrow>
             utimes env target (div1000 (atime tms)) (div1000 mtime_read) s1))"

text \<open>\<open>for (const target of targets)\<close>, each step awaited; a rejection leaves the loop.\<close>

fun set_targets :: "'w env \<Rightarrow> times \<Rightarrow> nat \<Rightarrow> jsstring list \<Rightarrow> 'w state \<Rightarrow> (error + unit) \<times> 'w state" where
  "set_targets env tms flags [] s = (Inr (), s)"
| "set_targets env tms flags (target # targets) s =
     (case set_target env tms flags target s of
        (Inl e, s1) \<Rightarrow> (Inl e, s1)
      | (Inr u, s1) \<Rightarrow> set_targets env tms flags targets s1)"

text \<open>
  \<open>set(paths, options)\<close>, exported also as \<open>utimes\<close>. The result is the settled promise:
  \<open>Inr ()\<close> fulfilled, \<open>Inl e\<close> rejected with \<open>e\<close>.
\<close>

definition set_utimes :: "'w env \<Rightarrow> jsval \<Rightarrow> jsval \<Rightarrow> 'w state \<Rightarrow> (error + unit) \<times> 'w state" where
  "set_utimes env paths options s =
     (case normalizePaths paths of
        Inl e \<Rightarrow> (Inl e, s)
      | Inr targets \<Rightarrow>
          (case getFullOptions options of
             Inl e \<Rightarrow> (Inl e, s)
           | Inr tms \<Rightarrow>
               (let flags = getFlags tms
                in if flags = 0 \<or> length targets = 0 then (Inr (), s)
                   else set_targets env tms flags targets s)))"

section \<open>A file system for examples\<close>

text \<open>
  Files with a modification and an access time in milliseconds, listed by path.
  \<open>ex_stat\<close> reads the modification time, \<open>ex_utimes\<close> stores the seconds it is given;
  both fail with \<open>ENOENT\<close> on a path that is not listed. \<open>ex_binding\<close> answers with a
  fixed status.
\<close>

type_synonym files = "(jsstring \<times> jsnum \<times> jsnum) list"

fun mul1000 :: "jsnum \<Rightarrow> jsnum" where
  "mul1000 (Fin r) = Fin (r * 1000)"
| "mul1000 NaN = NaN"
| "mul1000 PosInf = PosInf"
| "mul1000 NegInf = NegInf"

definition ex_stat :: "jsstring \<Rightarrow> files \<Rightarrow> (error + jsnum) \<times> files" where
  "ex_stat p w =
     (case map_of w p of
        None \<Rightarrow> (Inl (SystemError (lit ''ENOENT'')), w)
      | Some (m, a) \<Rightarrow> (Inr m, w))"

definition ex_utimes :: "jsstring \<Rightarrow> jsnum \<Rightarrow> jsnum \<Rightarrow> files \<Rightarrow> (error + unit) \<times> files" where
  "ex_utimes p a m w =
     (case map_of w p of
        None \<Rightarrow> (Inl (SystemError (lit ''ENOENT'')), w)
      | Some old \<Rightarrow>
          (Inr (), map (\<lambda>(q, t). if q = p then (q, (mul1000 m, mul1000 a)) else (q, t)) w))"

definition ex_binding :: "int \<Rightarrow> 8 word list \<Rightarrow> nat \<Rightarrow> jsnum \<Rightarrow> jsnum \<Rightarrow> jsnum \<Rightarrow> files \<Rightarrow> int \<times> files" where
  "ex_binding status buffer flags b m a w = (status, w)"



definition ex_env :: "string \<Rightarrow> int \<Rightarrow> files env" where
  "ex_env plat status =
     \<lparr>platform = lit plat, makeLong = (\<lambda>p. p), fs_stat = ex_stat, fs_utimes = ex_utimes,
      binding_utimes = ex_binding status\<rparr>"


section \<open>Facts about validation and the plan\<close>

lemmas ex_defs = Let_def set_target_def stat_def utimes_def ex_env_def ex_stat_def ex_utimes_def lit_def

text \<open>An integer below \<open>2 ^ 53\<close> is a double: rounding leaves it as it is.\<close>

lemma round_half_even_of_int: "round_half_even (of_int n) = n"
  by (simp add: round_half_even_def)

lemma pow2_neg: "pow2 (- int j) = 1 / 2 ^ j"
  by (simp add: pow2_def)

lemma to_double_of_int:
  assumes "0 < k" and "k < 2 ^ 53"
  shows "to_double (of_int k) = Fin (of_int k)"
proof -
  from bitlen_bounds [OF assms(1)] have lo: "2 ^ nat (bitlen k - 1) \<le> k" by simp
  with assms(2) have lt: "(2::int) ^ nat (bitlen k - 1) < 2 ^ 53" by linarith
  have "nat (bitlen k - 1) < 53"
  proof (rule power_less_imp_less_exp)
    show "(1::int) < 2" by simp
    show "(2::int) ^ nat (bitlen k - 1) < 2 ^ 53" by (fact lt)
  qed
  moreover have "1 \<le> bitlen k"
    using assms(1) bitlen_eq_zero_iff [of k] bitlen_nonneg [of k] by linarith
  ultimately have b: "1 \<le> bitlen k" "bitlen k \<le> 53" by simp_all
  define j where "j = nat (53 - bitlen k)"
  with b have e: "bitlen k - 1 - 52 = - int j" by simp
  have fl: "floor_log2 \<bar>of_int k\<bar> = bitlen k - 1"
    using assms(1) by (simp add: floor_log2_def)
  have mx: "max (- int j) (- 1074) = - int j"
    using b by (simp add: j_def)
  have q: "\<bar>rat_of_int k\<bar> / (1 / 2 ^ j) = of_int (k * 2 ^ j)"
    using assms(1) by simp
  have small: "\<not> pow2 1024 \<le> rat_of_int k"
  proof -
    have "rat_of_int k < of_int (2 ^ 53)" using assms(2) by (simp only: of_int_less_iff)
    also have "\<dots> \<le> pow2 1024" by (simp add: pow2_def)
    finally show ?thesis by simp
  qed
  have nz: "rat_of_int k \<noteq> 0" and pos: "0 < rat_of_int k" and sg: "sgn (rat_of_int k) = 1"
    using assms(1) by simp_all
  have r: "of_int (round_half_even (\<bar>rat_of_int k\<bar> / pow2 (- int j))) * pow2 (- int j) = rat_of_int k"
    unfolding pow2_neg q round_half_even_of_int by simp
  show ?thesis
    unfolding to_double_def fl e mx Let_def r using nz small sg by simp
qed

lemma to_double_small [simp]:
  "to_double 0 = Fin 0" "to_double 4 = Fin 4" "to_double 7 = Fin 7" "to_double 9 = Fin 9"
  using to_double_of_int [of 4] to_double_of_int [of 7] to_double_of_int [of 9]
  by (simp_all add: to_double_def)

lemma floor_differs_Fin: "\<not> floor_differs (Fin r) \<longleftrightarrow> (\<exists>k::int. r = of_int k)"
  by (metis floor_differs.simps(1) floor_of_int)

text \<open>\<open>assertTime\<close> returns normally on \<open>undefined\<close> and on the integers from 0 to \<open>2 ^ 48 - 1\<close>, and on nothing else.\<close>

lemma assertTime_ok_iff:
  "assertTime key v = Inr () \<longleftrightarrow>
     v = JUndefined \<or> (\<exists>k::int. 0 \<le> k \<and> k \<le> 2 ^ 48 - 1 \<and> v = JNumber (Fin (of_int k)))"
proof (cases v)
  case (JNumber n)
  show ?thesis
  proof (cases n)
    case (Fin r)
    show ?thesis
    proof (cases "\<exists>k::int. r = of_int k")
      case True
      then obtain k :: int where k: "r = of_int k" ..
      have "(of_int k :: rat) \<le> 2 ^ 48 - 1 \<longleftrightarrow> k \<le> 2 ^ 48 - 1"
        by simp
      with k JNumber Fin show ?thesis by (auto simp: not_less)
    next
      case False
      with JNumber Fin show ?thesis by (auto simp: floor_differs_Fin simp del: floor_differs.simps)
    qed
  qed (use JNumber in auto)
qed auto

lemma or_zero_valid:
  assumes "assertTime key v = Inr ()"
  shows "\<exists>k::int. 0 \<le> k \<and> k \<le> 2 ^ 48 - 1 \<and> or_zero v = Fin (of_int k)"
proof -
  from assms consider "v = JUndefined"
    | k :: int where "0 \<le> k" "k \<le> 2 ^ 48 - 1" "v = JNumber (Fin (of_int k))"
    unfolding assertTime_ok_iff by blast
  then show ?thesis
  proof cases
    case 1
    have "(0::int) \<le> 0 \<and> (0::int) \<le> 2 ^ 48 - 1 \<and> or_zero v = Fin (of_int 0)"
      using 1 by simp
    then show ?thesis by blast
  next
    case 2
    show ?thesis
    proof (cases "k = 0")
      case True
      with 2 have "(0::int) \<le> 0 \<and> (0::int) \<le> 2 ^ 48 - 1 \<and> or_zero v = Fin (of_int 0)"
        by simp
      then show ?thesis by blast
    next
      case False
      with 2 have "or_zero v = Fin (of_int k)" by simp
      with 2 show ?thesis by blast
    qed
  qed
qed

lemma or_zero_truthy:
  assumes "assertTime key v = Inr ()"
  shows "truthy (or_zero v) \<longleftrightarrow> \<not> (v = JUndefined \<or> v = JNumber (Fin 0))"
  using assms unfolding assertTime_ok_iff by (auto split: if_splits)

lemma getFullOptions_Inr:
  assumes "getFullOptions options = Inr tms"
  shows "\<exists>b m a. get_prop options (lit ''btime'') = Inr b \<and> assertTime (lit ''btime'') b = Inr ()
           \<and> get_prop options (lit ''mtime'') = Inr m \<and> assertTime (lit ''mtime'') m = Inr ()
           \<and> get_prop options (lit ''atime'') = Inr a \<and> assertTime (lit ''atime'') a = Inr ()
           \<and> tms = \<lparr>btime = or_zero b, mtime = or_zero m, atime = or_zero a\<rparr>"
  using assms unfolding getFullOptions_def
  by (simp split: if_splits sum.splits)

text \<open>A bit of the mask is set exactly when the field is truthy.\<close>

lemma getFlags_bits:
  "getFlags tms AND 1 \<noteq> 0 \<longleftrightarrow> truthy (btime tms)"
  "getFlags tms AND 2 \<noteq> 0 \<longleftrightarrow> truthy (mtime tms)"
  "getFlags tms AND 4 \<noteq> 0 \<longleftrightarrow> truthy (atime tms)"
  by (simp_all add: getFlags_def)

lemma getFlags_zero_iff:
  "getFlags tms = 0 \<longleftrightarrow> \<not> truthy (btime tms) \<and> \<not> truthy (mtime tms) \<and> \<not> truthy (atime tms)"
  by (simp add: getFlags_def)

section \<open>The no-op and the order of validation\<close>

text \<open>
  Claim C4. Once both arguments have passed validation, a mask of zero or an empty list of
  targets makes \<open>set\<close> resolve with the world and the log of calls as they were: nothing
  is read or written. The mask is zero exactly when each of \<open>btime\<close>, \<open>mtime\<close> and
  \<open>atime\<close> is absent from the options or is 0.
\<close>

theorem set_noop:
  assumes "normalizePaths paths = Inr targets"
    and "getFullOptions options = Inr tms"
  shows "(getFlags tms = 0 \<or> targets = [] \<longrightarrow> set_utimes env paths options s = (Inr (), s)) \<and>
         (getFlags tms = 0 \<longleftrightarrow>
            (\<forall>k \<in> {lit ''btime'', lit ''mtime'', lit ''atime''}.
               get_prop options k = Inr JUndefined \<or> get_prop options k = Inr (JNumber (Fin 0))))"
proof
  show "getFlags tms = 0 \<or> targets = [] \<longrightarrow> set_utimes env paths options s = (Inr (), s)"
    using assms by (auto simp: set_utimes_def)
next
  from getFullOptions_Inr [OF assms(2)] obtain b m a where
    b: "get_prop options (lit ''btime'') = Inr b" "assertTime (lit ''btime'') b = Inr ()" and
    m: "get_prop options (lit ''mtime'') = Inr m" "assertTime (lit ''mtime'') m = Inr ()" and
    a: "get_prop options (lit ''atime'') = Inr a" "assertTime (lit ''atime'') a = Inr ()" and
    tms: "tms = \<lparr>btime = or_zero b, mtime = or_zero m, atime = or_zero a\<rparr>"
    by blast
  show "getFlags tms = 0 \<longleftrightarrow>
          (\<forall>k \<in> {lit ''btime'', lit ''mtime'', lit ''atime''}.
             get_prop options k = Inr JUndefined \<or> get_prop options k = Inr (JNumber (Fin 0)))"
    by (simp add: getFlags_zero_iff tms b(1) m(1) a(1)
          or_zero_truthy [OF b(2)] or_zero_truthy [OF m(2)] or_zero_truthy [OF a(2)])
qed

theorem set_noop_witness:
  "normalizePaths (JArray []) = Inr [] \<and>
   getFullOptions (JObject [(lit ''mtime'', JNumber (Fin 5))])
     = Inr \<lparr>btime = Fin 0, mtime = Fin 5, atime = Fin 0\<rparr> \<and>
   set_utimes (ex_env ''linux'' 0) (JArray []) (JObject [(lit ''mtime'', JNumber (Fin 5))])
     ([(lit ''f'', Fin 7000, Fin 5000)], []) = (Inr (), ([(lit ''f'', Fin 7000, Fin 5000)], [])) \<and>
   normalizePaths (JString (lit ''f'')) = Inr [lit ''f''] \<and>
   getFullOptions (JObject [(lit ''mtime'', JNumber (Fin 0))])
     = Inr \<lparr>btime = Fin 0, mtime = Fin 0, atime = Fin 0\<rparr> \<and>
   getFlags \<lparr>btime = Fin 0, mtime = Fin 0, atime = Fin 0\<rparr> = 0 \<and>
   set_utimes (ex_env ''linux'' 0) (JString (lit ''f'')) (JObject [(lit ''mtime'', JNumber (Fin 0))])
     ([(lit ''f'', Fin 7000, Fin 5000)], []) = (Inr (), ([(lit ''f'', Fin 7000, Fin 5000)], []))"
proof -
  have p1: "normalizePaths (JArray []) = Inr []" by simp
  have o1: "getFullOptions (JObject [(lit ''mtime'', JNumber (Fin 5))])
              = Inr \<lparr>btime = Fin 0, mtime = Fin 5, atime = Fin 0\<rparr>"
    by (simp add: getFullOptions_def lit_def)
  have p2: "normalizePaths (JString (lit ''f'')) = Inr [lit ''f'']" by (simp add: lit_def)
  have o2: "getFullOptions (JObject [(lit ''mtime'', JNumber (Fin 0))])
              = Inr \<lparr>btime = Fin 0, mtime = Fin 0, atime = Fin 0\<rparr>"
    by (simp add: getFullOptions_def lit_def)
  have f2: "getFlags \<lparr>btime = Fin 0, mtime = Fin 0, atime = Fin 0\<rparr> = 0"
    by (simp add: getFlags_def)
  have r1: "set_utimes (ex_env ''linux'' 0) (JArray []) (JObject [(lit ''mtime'', JNumber (Fin 5))])
              ([(lit ''f'', Fin 7000, Fin 5000)], []) = (Inr (), ([(lit ''f'', Fin 7000, Fin 5000)], []))"
    using set_noop [OF p1 o1, THEN conjunct1] by simp
  have r2: "set_utimes (ex_env ''linux'' 0) (JString (lit ''f''))
              (JObject [(lit ''mtime'', JNumber (Fin 0))])
              ([(lit ''f'', Fin 7000, Fin 5000)], []) = (Inr (), ([(lit ''f'', Fin 7000, Fin 5000)], []))"
    using set_noop [OF p2 o2, THEN conjunct1] f2 by simp
  from p1 o1 r1 p2 o2 f2 r2 show ?thesis by (intro conjI)
qed

text \<open>
  Claim C10. Both arguments are validated before the no-op test. A paths argument that
  fails validation rejects the call with that error whatever the options are, so also when
  they request no time; and once the paths have passed, options that fail validation reject
  the call with their error whatever the targets are, so also when the list is empty.
  Nothing has been read or written by then.
\<close>

theorem validation_before_noop:
  "(normalizePaths paths = Inl e \<longrightarrow> set_utimes env paths options s = (Inl e, s)) \<and>
   (normalizePaths paths = Inr targets \<and> getFullOptions options = Inl e \<longrightarrow>
      set_utimes env paths options s = (Inl e, s))"
  by (simp add: set_utimes_def)

theorem validation_before_noop_witness:
  "normalizePaths (JArray [JString []]) = Inl (Error (lit ''paths[0] must not be empty'')) \<and>
   getFullOptions (JObject []) = Inr \<lparr>btime = Fin 0, mtime = Fin 0, atime = Fin 0\<rparr> \<and>
   set_utimes (ex_env ''linux'' 0) (JArray [JString []]) (JObject []) ([], [])
     = (Inl (Error (lit ''paths[0] must not be empty'')), ([], [])) \<and>
   normalizePaths (JArray []) = Inr [] \<and>
   getFullOptions (JObject [(lit ''atime'', JNumber (Fin (- 1)))])
     = Inl (Error (lit ''atime must be a positive integer'')) \<and>
   set_utimes (ex_env ''linux'' 0) (JArray []) (JObject [(lit ''atime'', JNumber (Fin (- 1)))]) ([], [])
     = (Inl (Error (lit ''atime must be a positive integer'')), ([], []))"
proof -
  have p1: "normalizePaths (JArray [JString []]) = Inl (Error (lit ''paths[0] must not be empty''))"
    by (simp add: lit_def show_nat.simps)
  have o1: "getFullOptions (JObject []) = Inr \<lparr>btime = Fin 0, mtime = Fin 0, atime = Fin 0\<rparr>"
    by (simp add: getFullOptions_def)
  have p2: "normalizePaths (JArray []) = Inr []" by simp
  have o2: "getFullOptions (JObject [(lit ''atime'', JNumber (Fin (- 1)))])
              = Inl (Error (lit ''atime must be a positive integer''))"
    by (simp add: getFullOptions_def lit_def)
  from validation_before_noop [of "JArray [JString []]" _ "ex_env ''linux'' 0" "JObject []" "([], [])"]
       validation_before_noop [of "JArray []" _ "ex_env ''linux'' 0"
          "JObject [(lit ''atime'', JNumber (Fin (- 1)))]" "([], [])" "[]"]
       p1 o1 p2 o2
  show ?thesis by simp
qed

text \<open>
  Claim C5, at a value above the range. \<open>assertTime\<close> rejects \<open>2 ^ 48\<close>, and so does
  \<open>set\<close>, before anything is read or written; but the message of the error is \<open>NaN\<close>
  and names no field, where the three other messages of \<open>assertTime\<close> begin with the key.
\<close>

theorem time_above_range_message:
  "assertTime (lit ''mtime'') (JNumber (Fin (2 ^ 48))) = Inl (Error (lit ''NaN'')) \<and>
   set_utimes env (JString (lit ''f'')) (JObject [(lit ''mtime'', JNumber (Fin (2 ^ 48)))]) s
     = (Inl (Error (lit ''NaN'')), s)"
  by (simp add: set_utimes_def getFullOptions_def lit_def)

section \<open>Invalid paths\<close>

text \<open>The three messages of \<open>assertPath\<close>, each after the key.\<close>

lemma assertPath_Inl:
  "assertPath key v = Inl e \<Longrightarrow>
     e = Error (key @ lit '' must be a string'') \<or> e = Error (key @ lit '' must not be empty'')
     \<or> e = Error (key @ lit '' must be a string without null bytes'')"
  by (cases v) (auto split: if_splits)

text \<open>
  The loop of \<open>normalizePaths\<close> fails at the first element that \<open>assertPath\<close> rejects,
  under the label of its index; it succeeds on strings that are non-empty and free of the
  code unit 0, and on nothing else.
\<close>

lemma normalizeArray_first_invalid:
  assumes "i < length vs"
    and "\<forall>j<i. \<exists>t. vs ! j = JString t \<and> t \<noteq> [] \<and> 0 \<notin> set t"
    and "assertPath (lit ''paths['' @ show_nat (k + i) @ lit '']'') (vs ! i) = Inl e"
  shows "normalizeArray k vs = Inl e"
  using assms
proof (induction vs arbitrary: i k)
  case Nil
  then show ?case by simp
next
  case (Cons v vs)
  show ?case
  proof (cases i)
    case 0
    with Cons.prems(3) show ?thesis by simp
  next
    case (Suc i')
    from Cons.prems(2) Suc have "\<exists>t. (v # vs) ! 0 = JString t \<and> t \<noteq> [] \<and> 0 \<notin> set t"
      by blast
    then obtain t where v: "v = JString t" "t \<noteq> []" "0 \<notin> set t" by auto
    have "i' < length vs" using Cons.prems(1) Suc by simp
    moreover have "\<forall>j<i'. \<exists>t. vs ! j = JString t \<and> t \<noteq> [] \<and> 0 \<notin> set t"
    proof (intro allI impI)
      fix j assume "j < i'"
      then have "Suc j < i" using Suc by simp
      with Cons.prems(2) have "\<exists>t. (v # vs) ! Suc j = JString t \<and> t \<noteq> [] \<and> 0 \<notin> set t"
        by blast
      then show "\<exists>t. vs ! j = JString t \<and> t \<noteq> [] \<and> 0 \<notin> set t" by simp
    qed
    moreover have "assertPath (lit ''paths['' @ show_nat (Suc k + i') @ lit '']'') (vs ! i') = Inl e"
      using Cons.prems(3) Suc by simp
    ultimately have "normalizeArray (Suc k) vs = Inl e"
      by (rule Cons.IH)
    with v show ?thesis by simp
  qed
qed

lemma normalizeArray_Inr:
  "normalizeArray k vs = Inr ts \<Longrightarrow> vs = map JString ts \<and> (\<forall>t\<in>set ts. t \<noteq> [] \<and> 0 \<notin> set t)"
proof (induction vs arbitrary: k ts)
  case Nil
  then show ?case by simp
next
  case (Cons v vs)
  from Cons.prems obtain t ts' where
    t: "assertPath (lit ''paths['' @ show_nat k @ lit '']'') v = Inr t" and
    ts': "normalizeArray (k + 1) vs = Inr ts'" and ts: "ts = t # ts'"
    by (auto split: sum.splits)
  from t have "v = JString t \<and> t \<noteq> [] \<and> 0 \<notin> set t"
    by (cases v) (auto split: if_splits)
  with Cons.IH [OF ts'] ts show ?case by simp
qed

lemma normalizeArray_Inl:
  "normalizeArray k vs = Inl e \<Longrightarrow>
     \<exists>i<length vs. assertPath (lit ''paths['' @ show_nat (k + i) @ lit '']'') (vs ! i) = Inl e"
proof (induction vs arbitrary: k)
  case Nil
  then show ?case by simp
next
  case (Cons v vs)
  show ?case
  proof (cases "assertPath (lit ''paths['' @ show_nat k @ lit '']'') v")
    case (Inl e')
    with Cons.prems have "assertPath (lit ''paths['' @ show_nat (k + 0) @ lit '']'') ((v # vs) ! 0) = Inl e"
      by simp
    then show ?thesis by blast
  next
    case (Inr t)
    with Cons.prems have "normalizeArray (Suc k) vs = Inl e"
      by (simp split: sum.splits)
    from Cons.IH [OF this] obtain i where
      "i < length vs" "assertPath (lit ''paths['' @ show_nat (Suc k + i) @ lit '']'') (vs ! i) = Inl e"
      by blast
    then have "Suc i < length (v # vs) \<and>
        assertPath (lit ''paths['' @ show_nat (k + Suc i) @ lit '']'') ((v # vs) ! Suc i) = Inl e"
      by simp
    then show ?thesis by blast
  qed
qed

text \<open>
  Claim C6. A single path that is empty or contains the code unit 0 rejects the call under
  the label \<open>path\<close>. In an array whose elements before index \<open>i\<close> are valid paths, an
  element at \<open>i\<close> that is no string, is empty, or contains the code unit 0 rejects the call
  with the message for that case under the label \<open>paths[i]\<close>. So an array with any such
  element rejects the call with one of the three messages under the label of an index.
  Each time the world and the log of calls are as they were: no call has been made.
\<close>

theorem invalid_path_rejected:
  "set_utimes env (JString []) options s = (Inl (Error (lit ''path'' @ lit '' must not be empty'')), s) \<and>
   (t \<noteq> [] \<and> 0 \<in> set t \<longrightarrow>
      set_utimes env (JString t) options s
        = (Inl (Error (lit ''path'' @ lit '' must be a string without null bytes'')), s)) \<and>
   (i < length vs \<and> (\<forall>j<i. \<exists>u. vs ! j = JString u \<and> u \<noteq> [] \<and> 0 \<notin> set u) \<longrightarrow>
      ((\<forall>u. vs ! i \<noteq> JString u) \<longrightarrow>
         set_utimes env (JArray vs) options s
           = (Inl (Error (lit ''paths['' @ show_nat i @ lit '']'' @ lit '' must be a string'')), s)) \<and>
      (vs ! i = JString [] \<longrightarrow>
         set_utimes env (JArray vs) options s
           = (Inl (Error (lit ''paths['' @ show_nat i @ lit '']'' @ lit '' must not be empty'')), s)) \<and>
      ((\<exists>u. vs ! i = JString u \<and> u \<noteq> [] \<and> 0 \<in> set u) \<longrightarrow>
         set_utimes env (JArray vs) options s
           = (Inl (Error (lit ''paths['' @ show_nat i @ lit '']'' @ lit '' must be a string without null bytes'')), s))) \<and>
   ((\<exists>v\<in>set vs. (\<forall>u. v \<noteq> JString u) \<or> v = JString [] \<or> (\<exists>u. v = JString u \<and> 0 \<in> set u)) \<longrightarrow>
      (\<exists>k<length vs. \<exists>msg\<in>{lit '' must be a string'', lit '' must not be empty'',
                                 lit '' must be a string without null bytes''}.
         set_utimes env (JArray vs) options s
           = (Inl (Error (lit ''paths['' @ show_nat k @ lit '']'' @ msg)), s)))"
proof (intro conjI impI)
  show "set_utimes env (JString []) options s = (Inl (Error (lit ''path'' @ lit '' must not be empty'')), s)"
    by (simp add: set_utimes_def)
next
  assume "t \<noteq> [] \<and> 0 \<in> set t"
  then show "set_utimes env (JString t) options s
        = (Inl (Error (lit ''path'' @ lit '' must be a string without null bytes'')), s)"
    by (simp add: set_utimes_def)
next
  assume first: "i < length vs \<and> (\<forall>j<i. \<exists>u. vs ! j = JString u \<and> u \<noteq> [] \<and> 0 \<notin> set u)"
    and bad: "\<forall>u. vs ! i \<noteq> JString u"
  from bad have "assertPath (lit ''paths['' @ show_nat (0 + i) @ lit '']'') (vs ! i)
      = Inl (Error (lit ''paths['' @ show_nat i @ lit '']'' @ lit '' must be a string''))"
    by (cases "vs ! i") simp_all
  with first have "normalizeArray 0 vs
      = Inl (Error (lit ''paths['' @ show_nat i @ lit '']'' @ lit '' must be a string''))"
    by (intro normalizeArray_first_invalid) blast+
  then show "set_utimes env (JArray vs) options s
           = (Inl (Error (lit ''paths['' @ show_nat i @ lit '']'' @ lit '' must be a string'')), s)"
    by (simp add: set_utimes_def)
next
  assume first: "i < length vs \<and> (\<forall>j<i. \<exists>u. vs ! j = JString u \<and> u \<noteq> [] \<and> 0 \<notin> set u)"
    and bad: "vs ! i = JString []"
  from bad have "assertPath (lit ''paths['' @ show_nat (0 + i) @ lit '']'') (vs ! i)
      = Inl (Error (lit ''paths['' @ show_nat i @ lit '']'' @ lit '' must not be empty''))"
    by simp
  with first have "normalizeArray 0 vs
      = Inl (Error (lit ''paths['' @ show_nat i @ lit '']'' @ lit '' must not be empty''))"
    by (intro normalizeArray_first_invalid) blast+
  then show "set_utimes env (JArray vs) options s
           = (Inl (Error (lit ''paths['' @ show_nat i @ lit '']'' @ lit '' must not be empty'')), s)"
    by (simp add: set_utimes_def)
next
  assume first: "i < length vs \<and> (\<forall>j<i. \<exists>u. vs ! j = JString u \<and> u \<noteq> [] \<and> 0 \<notin> set u)"
    and bad: "\<exists>u. vs ! i = JString u \<and> u \<noteq> [] \<and> 0 \<in> set u"
  from bad have "assertPath (lit ''paths['' @ show_nat (0 + i) @ lit '']'') (vs ! i)
      = Inl (Error (lit ''paths['' @ show_nat i @ lit '']'' @ lit '' must be a string without null bytes''))"
    by auto
  with first have "normalizeArray 0 vs
      = Inl (Error (lit ''paths['' @ show_nat i @ lit '']'' @ lit '' must be a string without null bytes''))"
    by (intro normalizeArray_first_invalid) blast+
  then show "set_utimes env (JArray vs) options s
           = (Inl (Error (lit ''paths['' @ show_nat i @ lit '']'' @ lit '' must be a string without null bytes'')), s)"
    by (simp add: set_utimes_def)
next
  assume "\<exists>v\<in>set vs. (\<forall>u. v \<noteq> JString u) \<or> v = JString [] \<or> (\<exists>u. v = JString u \<and> 0 \<in> set u)"
  then obtain v where v: "v \<in> set vs"
    "(\<forall>u. v \<noteq> JString u) \<or> v = JString [] \<or> (\<exists>u. v = JString u \<and> 0 \<in> set u)" by blast
  have "\<not> (\<exists>ts. normalizeArray 0 vs = Inr ts)"
  proof
    assume "\<exists>ts. normalizeArray 0 vs = Inr ts"
    then obtain ts where "normalizeArray 0 vs = Inr ts" ..
    from normalizeArray_Inr [OF this] v show False by auto
  qed
  then obtain e where e: "normalizeArray 0 vs = Inl e"
    by (cases "normalizeArray 0 vs") auto
  from normalizeArray_Inl [OF e] obtain k where
    k: "k < length vs" "assertPath (lit ''paths['' @ show_nat k @ lit '']'') (vs ! k) = Inl e"
    by auto
  from assertPath_Inl [OF k(2)] have "\<exists>msg\<in>{lit '' must be a string'', lit '' must not be empty'',
                                 lit '' must be a string without null bytes''}.
      e = Error (lit ''paths['' @ show_nat k @ lit '']'' @ msg)"
    by auto
  with e k(1) show "\<exists>k<length vs. \<exists>msg\<in>{lit '' must be a string'', lit '' must not be empty'',
                                 lit '' must be a string without null bytes''}.
         set_utimes env (JArray vs) options s
           = (Inl (Error (lit ''paths['' @ show_nat k @ lit '']'' @ msg)), s)"
    by (auto simp: set_utimes_def)
qed

theorem invalid_path_rejected_witness:
  "(1::nat) < length [JString (lit ''a''), JNumber (Fin 1), JString []] \<and>
   [JString (lit ''a''), JNumber (Fin 1), JString []] ! 0 = JString (lit ''a'') \<and>
   lit ''a'' \<noteq> [] \<and> 0 \<notin> set (lit ''a'') \<and>
   (\<forall>u. [JString (lit ''a''), JNumber (Fin 1), JString []] ! 1 \<noteq> JString u) \<and>
   set_utimes (ex_env ''linux'' 0) (JArray [JString (lit ''a''), JNumber (Fin 1), JString []])
     (JObject [(lit ''mtime'', JNumber (Fin 5))]) ([(lit ''a'', Fin 7000, Fin 5000)], [])
     = (Inl (Error (lit ''paths[1] must be a string'')), ([(lit ''a'', Fin 7000, Fin 5000)], [])) \<and>
   set_utimes (ex_env ''linux'' 0) (JString [97, 0])
     (JObject [(lit ''mtime'', JNumber (Fin 5))]) ([(lit ''a'', Fin 7000, Fin 5000)], [])
     = (Inl (Error (lit ''path must be a string without null bytes'')), ([(lit ''a'', Fin 7000, Fin 5000)], []))"
proof -
  let ?vs = "[JString (lit ''a''), JNumber (Fin 1), JString []]"
  have h1: "(1::nat) < length ?vs" by simp
  have h2: "\<forall>j<1::nat. \<exists>u. ?vs ! j = JString u \<and> u \<noteq> [] \<and> 0 \<notin> set u"
    by (simp add: lit_def)
  have h3: "\<forall>u. ?vs ! 1 \<noteq> JString u" by simp
  have h4: "[97, 0] \<noteq> ([] :: jsstring) \<and> 0 \<in> set ([97, 0] :: jsstring)" by simp
  have l: "lit ''paths['' @ show_nat 1 @ lit '']'' @ lit '' must be a string'' = lit ''paths[1] must be a string''"
    by (simp add: lit_def show_nat.simps)
  have l2: "lit ''path'' @ lit '' must be a string without null bytes'' = lit ''path must be a string without null bytes''"
    by (simp add: lit_def)
  note inst = invalid_path_rejected [of "ex_env ''linux'' 0" "JObject [(lit ''mtime'', JNumber (Fin 5))]"
      "([(lit ''a'', Fin 7000, Fin 5000)], [])" "[97, 0]" 1 ?vs]
  from inst h1 h2 h3 have r1: "set_utimes (ex_env ''linux'' 0) (JArray ?vs)
     (JObject [(lit ''mtime'', JNumber (Fin 5))]) ([(lit ''a'', Fin 7000, Fin 5000)], [])
     = (Inl (Error (lit ''paths[1] must be a string'')), ([(lit ''a'', Fin 7000, Fin 5000)], []))"
    unfolding l [symmetric] by blast
  from inst h4 have r2: "set_utimes (ex_env ''linux'' 0) (JString [97, 0])
     (JObject [(lit ''mtime'', JNumber (Fin 5))]) ([(lit ''a'', Fin 7000, Fin 5000)], [])
     = (Inl (Error (lit ''path must be a string without null bytes'')), ([(lit ''a'', Fin 7000, Fin 5000)], []))"
    unfolding l2 [symmetric] by blast
  have h0: "?vs ! 0 = JString (lit ''a'')" "lit ''a'' \<noteq> []" "0 \<notin> set (lit ''a'')"
    by (simp_all add: lit_def)
  from h1 h0 h3 r1 r2 show ?thesis by (intro conjI)
qed

section \<open>The loop over the targets\<close>

text \<open>The loop over a list followed by another runs the first, and the second only if the first succeeded.\<close>

lemma set_targets_append:
  "set_targets env tms flags (xs @ ys) s =
     (case set_targets env tms flags xs s of
        (Inl e, s1) \<Rightarrow> (Inl e, s1)
      | (Inr u, s1) \<Rightarrow> set_targets env tms flags ys s1)"
  by (induction xs arbitrary: s) (auto split: prod.splits sum.splits)

text \<open>
  On paths that are valid, \<open>normalizePaths\<close> returns them; then, with valid options and
  flags other than 0, \<open>set\<close> on a single path is the step for it, and \<open>set\<close> on an array
  is the loop over its elements.
\<close>

lemma normalizeArray_valid:
  "\<forall>p\<in>set ps. p \<noteq> [] \<and> 0 \<notin> set p \<Longrightarrow> normalizeArray k (map JString ps) = Inr ps"
  by (induction ps arbitrary: k) simp_all

lemma set_utimes_string:
  assumes "t \<noteq> [] \<and> 0 \<notin> set t"
    and "getFullOptions options = Inr tms" and "getFlags tms \<noteq> 0"
  shows "set_utimes env (JString t) options s = set_target env tms (getFlags tms) t s"
  using assms by (auto simp: set_utimes_def Let_def split: prod.splits sum.splits)

lemma set_utimes_array:
  assumes "\<forall>p\<in>set ps. p \<noteq> [] \<and> 0 \<notin> set p"
    and "getFullOptions options = Inr tms" and "getFlags tms \<noteq> 0"
  shows "set_utimes env (JArray (map JString ps)) options s = set_targets env tms (getFlags tms) ps s"
proof -
  have np: "normalizePaths (JArray (map JString ps)) = Inr ps"
    by (simp add: normalizeArray_valid [OF assms(1)])
  show ?thesis
    unfolding set_utimes_def np using assms(2,3)
    by (cases ps) (simp_all add: Let_def)
qed

lemma set_utimes_from_prefix:
  assumes valid: "\<forall>p\<in>set (pre @ t # post). p \<noteq> [] \<and> 0 \<notin> set p"
    and opts: "getFullOptions options = Inr tms" and nz: "getFlags tms \<noteq> 0"
    and prefix: "set_utimes env (JArray (map JString pre)) options s = (Inr (), s1)"
  shows "set_utimes env (JArray (map JString (pre @ [t]))) options s
           = set_target env tms (getFlags tms) t s1"
    and "set_utimes env (JArray (map JString (pre @ t # post))) options s
           = (case set_target env tms (getFlags tms) t s1 of
                (Inl e, s2) \<Rightarrow> (Inl e, s2)
              | (Inr u, s2) \<Rightarrow> set_targets env tms (getFlags tms) post s2)"
proof -
  from valid have v1: "\<forall>p\<in>set pre. p \<noteq> [] \<and> 0 \<notin> set p"
    and v2: "\<forall>p\<in>set (pre @ [t]). p \<noteq> [] \<and> 0 \<notin> set p" by auto
  from prefix have run: "set_targets env tms (getFlags tms) pre s = (Inr (), s1)"
    unfolding set_utimes_array [OF v1 opts nz] .
  show "set_utimes env (JArray (map JString (pre @ [t]))) options s
           = set_target env tms (getFlags tms) t s1"
    unfolding set_utimes_array [OF v2 opts nz] set_targets_append run
    by (simp split: prod.splits sum.splits)
  show "set_utimes env (JArray (map JString (pre @ t # post))) options s
           = (case set_target env tms (getFlags tms) t s1 of
                (Inl e, s2) \<Rightarrow> (Inl e, s2)
              | (Inr u, s2) \<Rightarrow> set_targets env tms (getFlags tms) post s2)"
    unfolding set_utimes_array [OF valid opts nz] set_targets_append run
    by simp
qed

text \<open>A step, and so the loop, only adds calls to the log.\<close>

lemma set_target_log: "\<exists>cs. snd (snd (set_target env tms flags t s)) = snd s @ cs"
  by (auto simp: set_target_def callBinding_def stat_def utimes_def Let_def
           split: prod.splits sum.splits)

lemma set_targets_log: "\<exists>cs. snd (snd (set_targets env tms flags ps s)) = snd s @ cs"
proof (induction ps arbitrary: s)
  case Nil
  then show ?case by simp
next
  case (Cons p ps)
  obtain r s1 where step: "set_target env tms flags p s = (r, s1)"
    by (cases "set_target env tms flags p s") blast
  from set_target_log [of env tms flags p s] step obtain cs where cs: "snd s1 = snd s @ cs"
    by auto
  show ?case
  proof (cases r)
    case (Inl e)
    with step cs show ?thesis by simp
  next
    case (Inr u)
    from Cons.IH [of s1] obtain cs' where
      "snd (snd (set_targets env tms flags ps s1)) = snd s1 @ cs'" by blast
    with Inr step cs show ?thesis by simp
  qed
qed

text \<open>
  The step for one target in terms of the calls it makes, branch by branch: what
  \<open>fs.utimes\<close>, \<open>fs.stat\<close> and the binding answer is what the step answers.
\<close>

lemma set_target_mtime:
  assumes "platform env \<noteq> lit ''win32''" and "platform env \<noteq> lit ''darwin''"
    and "flags AND 2 \<noteq> 0"
    and "fs_utimes env t (div1000 (if flags AND 4 \<noteq> 0 then atime tms else mtime tms))
           (div1000 (mtime tms)) (fst s1) = (r, w2)"
  shows "set_target env tms flags t s1
           = (r, (w2, snd s1 @ [Utimes t (div1000 (if flags AND 4 \<noteq> 0 then atime tms else mtime tms))
                                  (div1000 (mtime tms))]))"
  using assms by (simp add: set_target_def utimes_def Let_def)

lemma set_target_stat_fails:
  assumes "platform env \<noteq> lit ''win32''" and "platform env \<noteq> lit ''darwin''"
    and "flags AND 2 = 0"
    and "fs_stat env t (fst s1) = (Inl e, w1)"
  shows "set_target env tms flags t s1 = (Inl e, (w1, snd s1 @ [Stat t]))"
  using assms by (simp add: set_target_def stat_def)

lemma set_target_atime:
  assumes "platform env \<noteq> lit ''win32''" and "platform env \<noteq> lit ''darwin''"
    and "flags AND 2 = 0"
    and "fs_stat env t (fst s1) = (Inr mt, w1)"
    and "fs_utimes env t (div1000 (atime tms)) (div1000 mt) w1 = (r, w2)"
  shows "set_target env tms flags t s1
           = (r, (w2, snd s1 @ [Stat t, Utimes t (div1000 (atime tms)) (div1000 mt)]))"
  using assms by (simp add: set_target_def stat_def utimes_def)

lemma set_target_native:
  assumes "platform env = lit ''win32'' \<or> platform env = lit ''darwin''"
    and "pathBuffer (makeLong env) t = Inr buffer"
    and "binding_utimes env buffer flags (btime tms) (mtime tms) (atime tms) (fst s1) = (status, w2)"
  shows "set_target env tms flags t s1
           = (if status \<noteq> 0
              then Inl (Error (lit ''('' @ show_int status @ lit ''), utimes('' @ t @ lit '')''))
              else Inr (),
              (w2, snd s1 @ [Binding buffer flags (btime tms) (mtime tms) (atime tms)]))"
  using assms by (auto simp: set_target_def callBinding_def)

lemma set_target_buffer_fails:
  assumes "platform env = lit ''win32'' \<or> platform env = lit ''darwin''"
    and "pathBuffer (makeLong env) t = Inl e"
  shows "set_target env tms flags t s1 = (Inl e, s1)"
  using assms by (auto simp: set_target_def callBinding_def)

text \<open>
  After a prefix of the array that succeeded, a target whose step fails ends the call; a
  target whose step added calls leaves them in the log of the whole call.
\<close>

lemma set_utimes_aborts:
  assumes "\<forall>p\<in>set (pre @ t # post). p \<noteq> [] \<and> 0 \<notin> set p"
    and "getFullOptions options = Inr tms" and "getFlags tms \<noteq> 0"
    and "set_utimes env (JArray (map JString pre)) options s = (Inr (), s1)"
    and "set_target env tms (getFlags tms) t s1 = (Inl e, s2)"
  shows "set_utimes env (JArray (map JString (pre @ t # post))) options s = (Inl e, s2)"
  unfolding set_utimes_from_prefix(2) [OF assms(1-4)] assms(5) by simp

lemma set_utimes_goes_on:
  assumes "\<forall>p\<in>set (pre @ t # post). p \<noteq> [] \<and> 0 \<notin> set p"
    and "getFullOptions options = Inr tms" and "getFlags tms \<noteq> 0"
    and "set_utimes env (JArray (map JString pre)) options s = (Inr (), s1)"
    and "set_target env tms (getFlags tms) t s1 = (r, (w2, snd s1 @ cs))"
  shows "\<exists>cs'. snd (snd (set_utimes env (JArray (map JString (pre @ t # post))) options s))
           = snd s1 @ cs @ cs'"
proof (cases r)
  case (Inl e)
  with assms(5) have "set_utimes env (JArray (map JString (pre @ t # post))) options s
      = (Inl e, (w2, snd s1 @ cs))"
    by (intro set_utimes_aborts [OF assms(1-4)]) simp
  then show ?thesis by simp
next
  case (Inr u)
  from set_targets_log [of env tms "getFlags tms" post "(w2, snd s1 @ cs)"] obtain cs' where
    "snd (snd (set_targets env tms (getFlags tms) post (w2, snd s1 @ cs))) = (snd s1 @ cs) @ cs'"
    by auto
  with Inr assms(5) show ?thesis
    unfolding set_utimes_from_prefix(2) [OF assms(1-4)] by simp
qed

lemma nonzero_flags: "flags AND b \<noteq> 0 \<Longrightarrow> flags \<noteq> (0::nat)"
  by (cases "flags = 0") simp_all

lemma requested_time:
  assumes "assertTime key v = Inr ()" and "truthy (or_zero v)"
  shows "v = JNumber (or_zero v)"
  using assms unfolding assertTime_ok_iff by (auto split: if_splits)

lemmas ex_set_defs = set_utimes_def getFullOptions_def getFlags_def ex_defs

text \<open>
  Claim C8. The options are valid with flags other than 0, the paths \<open>pre @ t # post\<close> are
  valid, and \<open>set\<close> on the array \<open>pre\<close> succeeds, leaving the state \<open>s1\<close> (for an empty
  \<open>pre\<close> that is the state at the start). Then \<open>set\<close> on \<open>pre @ [t]\<close> makes the calls
  for \<open>t\<close> in the state \<open>s1\<close>, after those for \<open>pre\<close>, and answers what they answer:
  on the fallback platforms \<open>utimes\<close>, or \<open>stat\<close> and then \<open>utimes\<close>; on \<open>win32\<close> and
  \<open>darwin\<close> the path buffer and the binding. So the targets are handled in list order,
  each in the state the one before left. Whenever a call for \<open>t\<close> fails (\<open>utimes\<close> or
  \<open>stat\<close> with an error, the binding with a status other than 0, the path buffer), \<open>set\<close>
  on the whole array \<open>pre @ t # post\<close> is rejected with that error, in the state that
  call left: what was done for \<open>pre\<close> stays in the world and the log, and the log ends
  with the failed call, so nothing is attempted for \<open>post\<close>.
\<close>

theorem first_failure_aborts:
  assumes "getFullOptions options = Inr tms" and "flags = getFlags tms" and "flags \<noteq> 0"
    and "\<forall>p\<in>set (pre @ t # post). p \<noteq> [] \<and> 0 \<notin> set p"
    and "set_utimes env (JArray (map JString pre)) options s = (Inr (), s1)"
  shows "(platform env \<noteq> lit ''win32'' \<and> platform env \<noteq> lit ''darwin'' \<and> flags AND 2 \<noteq> 0 \<and>
          fs_utimes env t (div1000 (if flags AND 4 \<noteq> 0 then atime tms else mtime tms))
            (div1000 (mtime tms)) (fst s1) = (r, w2) \<longrightarrow>
            set_utimes env (JArray (map JString (pre @ [t]))) options s
              = (r, (w2, snd s1 @ [Utimes t (div1000 (if flags AND 4 \<noteq> 0 then atime tms else mtime tms))
                                     (div1000 (mtime tms))])) \<and>
            (\<forall>e'. r = Inl e' \<longrightarrow>
               set_utimes env (JArray (map JString (pre @ t # post))) options s
                 = (Inl e', (w2, snd s1 @ [Utimes t (div1000 (if flags AND 4 \<noteq> 0 then atime tms else mtime tms))
                                         (div1000 (mtime tms))])))) \<and>
         (platform env \<noteq> lit ''win32'' \<and> platform env \<noteq> lit ''darwin'' \<and> flags AND 2 = 0 \<and>
          fs_stat env t (fst s1) = (Inl e, w1) \<longrightarrow>
            set_utimes env (JArray (map JString (pre @ [t]))) options s
              = (Inl e, (w1, snd s1 @ [Stat t])) \<and>
            set_utimes env (JArray (map JString (pre @ t # post))) options s
              = (Inl e, (w1, snd s1 @ [Stat t]))) \<and>
         (platform env \<noteq> lit ''win32'' \<and> platform env \<noteq> lit ''darwin'' \<and> flags AND 2 = 0 \<and>
          fs_stat env t (fst s1) = (Inr mt, w1) \<and>
          fs_utimes env t (div1000 (atime tms)) (div1000 mt) w1 = (r, w2) \<longrightarrow>
            set_utimes env (JArray (map JString (pre @ [t]))) options s
              = (r, (w2, snd s1 @ [Stat t, Utimes t (div1000 (atime tms)) (div1000 mt)])) \<and>
            (\<forall>e'. r = Inl e' \<longrightarrow>
               set_utimes env (JArray (map JString (pre @ t # post))) options s
                 = (Inl e', (w2, snd s1 @ [Stat t, Utimes t (div1000 (atime tms)) (div1000 mt)])))) \<and>
         ((platform env = lit ''win32'' \<or> platform env = lit ''darwin'') \<and>
          pathBuffer (makeLong env) t = Inl e \<longrightarrow>
            set_utimes env (JArray (map JString (pre @ [t]))) options s = (Inl e, s1) \<and>
            set_utimes env (JArray (map JString (pre @ t # post))) options s = (Inl e, s1)) \<and>
         ((platform env = lit ''win32'' \<or> platform env = lit ''darwin'') \<and>
          pathBuffer (makeLong env) t = Inr buffer \<and>
          binding_utimes env buffer flags (btime tms) (mtime tms) (atime tms) (fst s1) = (status, w2) \<longrightarrow>
            (status = 0 \<longrightarrow>
               set_utimes env (JArray (map JString (pre @ [t]))) options s
                 = (Inr (), (w2, snd s1 @ [Binding buffer flags (btime tms) (mtime tms) (atime tms)]))) \<and>
            (status \<noteq> 0 \<longrightarrow>
               set_utimes env (JArray (map JString (pre @ [t]))) options s
                 = (Inl (Error (lit ''('' @ show_int status @ lit ''), utimes('' @ t @ lit '')'')),
                    (w2, snd s1 @ [Binding buffer flags (btime tms) (mtime tms) (atime tms)])) \<and>
               set_utimes env (JArray (map JString (pre @ t # post))) options s
                 = (Inl (Error (lit ''('' @ show_int status @ lit ''), utimes('' @ t @ lit '')'')),
                    (w2, snd s1 @ [Binding buffer flags (btime tms) (mtime tms) (atime tms)]))))"
proof -
  note opts = assms(1) and valid = assms(4)
  from assms(2,3) have nz: "getFlags tms \<noteq> 0" by simp
  note prefix = assms(5)
  have last: "\<And>res. set_target env tms flags t s1 = res \<Longrightarrow>
      set_utimes env (JArray (map JString (pre @ [t]))) options s = res"
    unfolding assms(2) set_utimes_from_prefix(1) [OF valid opts nz prefix] .
  have abort: "\<And>e' s2. set_target env tms flags t s1 = (Inl e', s2) \<Longrightarrow>
      set_utimes env (JArray (map JString (pre @ t # post))) options s = (Inl e', s2)"
    unfolding assms(2) by (rule set_utimes_aborts [OF valid opts nz prefix])
  have c1: "platform env \<noteq> lit ''win32'' \<and> platform env \<noteq> lit ''darwin'' \<and> flags AND 2 \<noteq> 0 \<and>
          fs_utimes env t (div1000 (if flags AND 4 \<noteq> 0 then atime tms else mtime tms))
            (div1000 (mtime tms)) (fst s1) = (r, w2) \<longrightarrow>
            set_utimes env (JArray (map JString (pre @ [t]))) options s
              = (r, (w2, snd s1 @ [Utimes t (div1000 (if flags AND 4 \<noteq> 0 then atime tms else mtime tms))
                                     (div1000 (mtime tms))])) \<and>
            (\<forall>e'. r = Inl e' \<longrightarrow>
               set_utimes env (JArray (map JString (pre @ t # post))) options s
                 = (Inl e', (w2, snd s1 @ [Utimes t (div1000 (if flags AND 4 \<noteq> 0 then atime tms else mtime tms))
                                         (div1000 (mtime tms))])))"
  proof (intro impI)
    assume h: "platform env \<noteq> lit ''win32'' \<and> platform env \<noteq> lit ''darwin'' \<and> flags AND 2 \<noteq> 0 \<and>
          fs_utimes env t (div1000 (if flags AND 4 \<noteq> 0 then atime tms else mtime tms))
            (div1000 (mtime tms)) (fst s1) = (r, w2)"
    then have p1: "platform env \<noteq> lit ''win32''" and p2: "platform env \<noteq> lit ''darwin''"
      and b: "flags AND 2 \<noteq> 0"
      and ut: "fs_utimes env t (div1000 (if flags AND 4 \<noteq> 0 then atime tms else mtime tms))
            (div1000 (mtime tms)) (fst s1) = (r, w2)" by simp_all
    have step: "set_target env tms flags t s1
        = (r, (w2, snd s1 @ [Utimes t (div1000 (if flags AND 4 \<noteq> 0 then atime tms else mtime tms))
                               (div1000 (mtime tms))]))"
      by (rule set_target_mtime [OF p1 p2 b ut])
    from last [OF step] abort step show "set_utimes env (JArray (map JString (pre @ [t]))) options s
              = (r, (w2, snd s1 @ [Utimes t (div1000 (if flags AND 4 \<noteq> 0 then atime tms else mtime tms))
                                     (div1000 (mtime tms))])) \<and>
            (\<forall>e'. r = Inl e' \<longrightarrow>
               set_utimes env (JArray (map JString (pre @ t # post))) options s
                 = (Inl e', (w2, snd s1 @ [Utimes t (div1000 (if flags AND 4 \<noteq> 0 then atime tms else mtime tms))
                                         (div1000 (mtime tms))])))"
      by blast
  qed
  have c2: "platform env \<noteq> lit ''win32'' \<and> platform env \<noteq> lit ''darwin'' \<and> flags AND 2 = 0 \<and>
          fs_stat env t (fst s1) = (Inl e, w1) \<longrightarrow>
            set_utimes env (JArray (map JString (pre @ [t]))) options s
              = (Inl e, (w1, snd s1 @ [Stat t])) \<and>
            set_utimes env (JArray (map JString (pre @ t # post))) options s
              = (Inl e, (w1, snd s1 @ [Stat t]))"
  proof (intro impI)
    assume h: "platform env \<noteq> lit ''win32'' \<and> platform env \<noteq> lit ''darwin'' \<and> flags AND 2 = 0 \<and>
          fs_stat env t (fst s1) = (Inl e, w1)"
    then have p1: "platform env \<noteq> lit ''win32''" and p2: "platform env \<noteq> lit ''darwin''"
      and b: "flags AND 2 = 0" and st: "fs_stat env t (fst s1) = (Inl e, w1)" by simp_all
    have step: "set_target env tms flags t s1 = (Inl e, (w1, snd s1 @ [Stat t]))"
      by (rule set_target_stat_fails [OF p1 p2 b st])
    from last [OF step] abort [OF step]
    show "set_utimes env (JArray (map JString (pre @ [t]))) options s
              = (Inl e, (w1, snd s1 @ [Stat t])) \<and>
            set_utimes env (JArray (map JString (pre @ t # post))) options s
              = (Inl e, (w1, snd s1 @ [Stat t]))" by (rule conjI)
  qed
  have c3: "platform env \<noteq> lit ''win32'' \<and> platform env \<noteq> lit ''darwin'' \<and> flags AND 2 = 0 \<and>
          fs_stat env t (fst s1) = (Inr mt, w1) \<and>
          fs_utimes env t (div1000 (atime tms)) (div1000 mt) w1 = (r, w2) \<longrightarrow>
            set_utimes env (JArray (map JString (pre @ [t]))) options s
              = (r, (w2, snd s1 @ [Stat t, Utimes t (div1000 (atime tms)) (div1000 mt)])) \<and>
            (\<forall>e'. r = Inl e' \<longrightarrow>
               set_utimes env (JArray (map JString (pre @ t # post))) options s
                 = (Inl e', (w2, snd s1 @ [Stat t, Utimes t (div1000 (atime tms)) (div1000 mt)])))"
  proof (intro impI)
    assume h: "platform env \<noteq> lit ''win32'' \<and> platform env \<noteq> lit ''darwin'' \<and> flags AND 2 = 0 \<and>
          fs_stat env t (fst s1) = (Inr mt, w1) \<and>
          fs_utimes env t (div1000 (atime tms)) (div1000 mt) w1 = (r, w2)"
    then have p1: "platform env \<noteq> lit ''win32''" and p2: "platform env \<noteq> lit ''darwin''"
      and b: "flags AND 2 = 0" and st: "fs_stat env t (fst s1) = (Inr mt, w1)"
      and ut: "fs_utimes env t (div1000 (atime tms)) (div1000 mt) w1 = (r, w2)" by simp_all
    have step: "set_target env tms flags t s1
        = (r, (w2, snd s1 @ [Stat t, Utimes t (div1000 (atime tms)) (div1000 mt)]))"
      by (rule set_target_atime [OF p1 p2 b st ut])
    from last [OF step] abort step
    show "set_utimes env (JArray (map JString (pre @ [t]))) options s
              = (r, (w2, snd s1 @ [Stat t, Utimes t (div1000 (atime tms)) (div1000 mt)])) \<and>
            (\<forall>e'. r = Inl e' \<longrightarrow>
               set_utimes env (JArray (map JString (pre @ t # post))) options s
                 = (Inl e', (w2, snd s1 @ [Stat t, Utimes t (div1000 (atime tms)) (div1000 mt)])))"
      by blast
  qed
  have c4: "(platform env = lit ''win32'' \<or> platform env = lit ''darwin'') \<and>
          pathBuffer (makeLong env) t = Inl e \<longrightarrow>
            set_utimes env (JArray (map JString (pre @ [t]))) options s = (Inl e, s1) \<and>
            set_utimes env (JArray (map JString (pre @ t # post))) options s = (Inl e, s1)"
  proof (intro impI)
    assume h: "(platform env = lit ''win32'' \<or> platform env = lit ''darwin'') \<and>
          pathBuffer (makeLong env) t = Inl e"
    then have n: "platform env = lit ''win32'' \<or> platform env = lit ''darwin''"
      and pb: "pathBuffer (makeLong env) t = Inl e" by simp_all
    have step: "set_target env tms flags t s1 = (Inl e, s1)"
      by (rule set_target_buffer_fails [OF n pb])
    from last [OF step] abort [OF step]
    show "set_utimes env (JArray (map JString (pre @ [t]))) options s = (Inl e, s1) \<and>
            set_utimes env (JArray (map JString (pre @ t # post))) options s = (Inl e, s1)"
      by (rule conjI)
  qed
  have c5: "(platform env = lit ''win32'' \<or> platform env = lit ''darwin'') \<and>
          pathBuffer (makeLong env) t = Inr buffer \<and>
          binding_utimes env buffer flags (btime tms) (mtime tms) (atime tms) (fst s1) = (status, w2) \<longrightarrow>
            (status = 0 \<longrightarrow>
               set_utimes env (JArray (map JString (pre @ [t]))) options s
                 = (Inr (), (w2, snd s1 @ [Binding buffer flags (btime tms) (mtime tms) (atime tms)]))) \<and>
            (status \<noteq> 0 \<longrightarrow>
               set_utimes env (JArray (map JString (pre @ [t]))) options s
                 = (Inl (Error (lit ''('' @ show_int status @ lit ''), utimes('' @ t @ lit '')'')),
                    (w2, snd s1 @ [Binding buffer flags (btime tms) (mtime tms) (atime tms)])) \<and>
               set_utimes env (JArray (map JString (pre @ t # post))) options s
                 = (Inl (Error (lit ''('' @ show_int status @ lit ''), utimes('' @ t @ lit '')'')),
                    (w2, snd s1 @ [Binding buffer flags (btime tms) (mtime tms) (atime tms)])))"
  proof (intro impI)
    assume h: "(platform env = lit ''win32'' \<or> platform env = lit ''darwin'') \<and>
          pathBuffer (makeLong env) t = Inr buffer \<and>
          binding_utimes env buffer flags (btime tms) (mtime tms) (atime tms) (fst s1) = (status, w2)"
    then have n: "platform env = lit ''win32'' \<or> platform env = lit ''darwin''"
      and pb: "pathBuffer (makeLong env) t = Inr buffer"
      and bu: "binding_utimes env buffer flags (btime tms) (mtime tms) (atime tms) (fst s1)
                 = (status, w2)" by simp_all
    have step: "set_target env tms flags t s1
           = (if status \<noteq> 0
              then Inl (Error (lit ''('' @ show_int status @ lit ''), utimes('' @ t @ lit '')''))
              else Inr (),
              (w2, snd s1 @ [Binding buffer flags (btime tms) (mtime tms) (atime tms)]))"
      by (rule set_target_native [OF n pb bu])
    show "(status = 0 \<longrightarrow>
               set_utimes env (JArray (map JString (pre @ [t]))) options s
                 = (Inr (), (w2, snd s1 @ [Binding buffer flags (btime tms) (mtime tms) (atime tms)]))) \<and>
            (status \<noteq> 0 \<longrightarrow>
               set_utimes env (JArray (map JString (pre @ [t]))) options s
                 = (Inl (Error (lit ''('' @ show_int status @ lit ''), utimes('' @ t @ lit '')'')),
                    (w2, snd s1 @ [Binding buffer flags (btime tms) (mtime tms) (atime tms)])) \<and>
               set_utimes env (JArray (map JString (pre @ t # post))) options s
                 = (Inl (Error (lit ''('' @ show_int status @ lit ''), utimes('' @ t @ lit '')'')),
                    (w2, snd s1 @ [Binding buffer flags (btime tms) (mtime tms) (atime tms)])))"
    proof (cases "status = 0")
      case True
      with step last show ?thesis by simp
    next
      case False
      with step have step': "set_target env tms flags t s1
           = (Inl (Error (lit ''('' @ show_int status @ lit ''), utimes('' @ t @ lit '')'')),
              (w2, snd s1 @ [Binding buffer flags (btime tms) (mtime tms) (atime tms)]))"
        by simp
      from False last [OF step'] abort [OF step'] show ?thesis by simp
    qed
  qed
  from c1 c2 c3 c4 c5 show ?thesis by (intro conjI)
qed

theorem first_failure_aborts_witness:
  "getFullOptions (JObject [(lit ''mtime'', JNumber (Fin 9000))])
     = Inr \<lparr>btime = Fin 0, mtime = Fin 9000, atime = Fin 0\<rparr> \<and>
   getFlags \<lparr>btime = Fin 0, mtime = Fin 9000, atime = Fin 0\<rparr> = 2 \<and>
   set_utimes (ex_env ''linux'' 0) (JArray (map JString [lit ''f'']))
     (JObject [(lit ''mtime'', JNumber (Fin 9000))])
     ([(lit ''f'', Fin 7000, Fin 5000), (lit ''h'', Fin 7000, Fin 5000)], [])
     = (Inr (), ([(lit ''f'', Fin 9000, Fin 9000), (lit ''h'', Fin 7000, Fin 5000)],
                 [Utimes (lit ''f'') (Fin 9) (Fin 9)])) \<and>
   fs_utimes (ex_env ''linux'' 0) (lit ''g'') (Fin 9) (Fin 9)
     [(lit ''f'', Fin 9000, Fin 9000), (lit ''h'', Fin 7000, Fin 5000)]
     = (Inl (SystemError (lit ''ENOENT'')),
        [(lit ''f'', Fin 9000, Fin 9000), (lit ''h'', Fin 7000, Fin 5000)]) \<and>
   set_utimes (ex_env ''linux'' 0)
     (JArray (map JString ([lit ''f''] @ lit ''g'' # [lit ''h''])))
     (JObject [(lit ''mtime'', JNumber (Fin 9000))])
     ([(lit ''f'', Fin 7000, Fin 5000), (lit ''h'', Fin 7000, Fin 5000)], [])
     = (Inl (SystemError (lit ''ENOENT'')),
        ([(lit ''f'', Fin 9000, Fin 9000), (lit ''h'', Fin 7000, Fin 5000)],
         [Utimes (lit ''f'') (Fin 9) (Fin 9), Utimes (lit ''g'') (Fin 9) (Fin 9)]))"
proof -
  let ?env = "ex_env ''linux'' 0"
  let ?opts = "JObject [(lit ''mtime'', JNumber (Fin 9000))]"
  let ?tms = "\<lparr>btime = Fin 0, mtime = Fin 9000, atime = Fin 0\<rparr>"
  let ?s = "([(lit ''f'', Fin 7000, Fin 5000), (lit ''h'', Fin 7000, Fin 5000)], []) :: files state"
  let ?w1 = "[(lit ''f'', Fin 9000, Fin 9000), (lit ''h'', Fin 7000, Fin 5000)] :: files"
  let ?s1 = "(?w1, [Utimes (lit ''f'') (Fin 9) (Fin 9)]) :: files state"
  have p: "platform ?env \<noteq> lit ''win32'' \<and> platform ?env \<noteq> lit ''darwin''"
    by (simp add: ex_env_def lit_def)
  have opts: "getFullOptions ?opts = Inr ?tms" by (simp add: getFullOptions_def lit_def)
  have flags: "2 = getFlags ?tms" by (simp add: getFlags_def)
  have nz: "(2::nat) \<noteq> 0" by simp
  have bit: "(2::nat) AND 2 \<noteq> 0" by simp
  have valid: "\<forall>p\<in>set ([lit ''f''] @ lit ''g'' # [lit ''h'']). p \<noteq> [] \<and> 0 \<notin> set p"
    by (simp add: lit_def)
  have prefix: "set_utimes ?env (JArray (map JString [lit ''f''])) ?opts ?s = (Inr (), ?s1)"
    by (simp add: ex_set_defs)
  have call: "fs_utimes ?env (lit ''g'')
      (div1000 (if (2::nat) AND 4 \<noteq> 0 then atime ?tms else mtime ?tms))
      (div1000 (mtime ?tms)) (fst ?s1) = (Inl (SystemError (lit ''ENOENT'')), ?w1)"
    by (simp add: ex_defs)
  from first_failure_aborts [OF opts flags nz valid prefix,
      where r = "Inl (SystemError (lit ''ENOENT''))" and ?w2.0 = ?w1, THEN conjunct1] p bit call
  have "set_utimes ?env (JArray (map JString ([lit ''f''] @ lit ''g'' # [lit ''h'']))) ?opts ?s
      = (Inl (SystemError (lit ''ENOENT'')),
         (?w1, snd ?s1 @ [Utimes (lit ''g'')
            (div1000 (if (2::nat) AND 4 \<noteq> 0 then atime ?tms else mtime ?tms))
            (div1000 (mtime ?tms))]))"
    by blast
  then have run: "set_utimes ?env (JArray (map JString ([lit ''f''] @ lit ''g'' # [lit ''h''])))
      ?opts ?s
      = (Inl (SystemError (lit ''ENOENT'')),
         (?w1, [Utimes (lit ''f'') (Fin 9) (Fin 9), Utimes (lit ''g'') (Fin 9) (Fin 9)]))"
    by simp
  from call have call': "fs_utimes ?env (lit ''g'') (Fin 9) (Fin 9) ?w1
      = (Inl (SystemError (lit ''ENOENT'')), ?w1)" by simp
  from flags have flags': "getFlags ?tms = 2" by simp
  from opts flags' prefix call' run show ?thesis by (intro conjI)
qed

section \<open>The fallback platforms\<close>

text \<open>
  Claim C2. The platform is neither \<open>win32\<close> nor \<open>darwin\<close>, the options are valid and
  bit 2 (MTIME) of the flags is set. Let \<open>m\<close> be \<open>times.mtime / 1000\<close> and \<open>a\<close> be
  \<open>times.atime / 1000\<close> when bit 4 (ATIME) is set and \<open>times.mtime / 1000\<close> otherwise.
  Then \<open>set\<close> on a single valid path \<open>t\<close> is one call \<open>utimes(t, a, m)\<close>: it logs that
  call alone and answers what the call answers. In an array of valid paths, after a
  prefix \<open>pre\<close> that succeeded with the state \<open>s1\<close>, \<open>set\<close> on \<open>pre @ [t]\<close> adds to
  the log of \<open>s1\<close> that one call for \<open>t\<close>, made in the world of \<open>s1\<close>, and on
  \<open>pre @ t # post\<close> the log goes on from there. \<open>times.mtime\<close> (and \<open>times.atime\<close>,
  when its bit is set) is the number given in the options.
\<close>

theorem mtime_fallback:
  assumes "platform env \<noteq> lit ''win32''" and "platform env \<noteq> lit ''darwin''"
    and "getFullOptions options = Inr tms"
    and "getFlags tms AND 2 \<noteq> 0"
    and "a = div1000 (if getFlags tms AND 4 \<noteq> 0 then atime tms else mtime tms)"
    and "m = div1000 (mtime tms)"
    and "\<forall>p\<in>set (pre @ t # post). p \<noteq> [] \<and> 0 \<notin> set p"
  shows "(fs_utimes env t a m (fst s) = (r, w2) \<longrightarrow>
            set_utimes env (JString t) options s = (r, (w2, snd s @ [Utimes t a m]))) \<and>
         (set_utimes env (JArray (map JString pre)) options s = (Inr (), s1) \<and>
          fs_utimes env t a m (fst s1) = (r, w2) \<longrightarrow>
            set_utimes env (JArray (map JString (pre @ [t]))) options s
              = (r, (w2, snd s1 @ [Utimes t a m])) \<and>
            (\<exists>cs. snd (snd (set_utimes env (JArray (map JString (pre @ t # post))) options s))
                    = snd s1 @ Utimes t a m # cs)) \<and>
         get_prop options (lit ''mtime'') = Inr (JNumber (mtime tms)) \<and>
         (getFlags tms AND 4 \<noteq> 0 \<longrightarrow>
            get_prop options (lit ''atime'') = Inr (JNumber (atime tms)))"
proof -
  note opts = assms(3) and valid = assms(7)
  have nz: "getFlags tms \<noteq> 0" by (rule nonzero_flags [OF assms(4)])
  from valid have vt: "t \<noteq> [] \<and> 0 \<notin> set t" by simp
  have single: "fs_utimes env t a m (fst s) = (r, w2) \<longrightarrow>
            set_utimes env (JString t) options s = (r, (w2, snd s @ [Utimes t a m]))"
  proof
    assume "fs_utimes env t a m (fst s) = (r, w2)"
    then show "set_utimes env (JString t) options s = (r, (w2, snd s @ [Utimes t a m]))"
      unfolding set_utimes_string [OF vt opts nz] assms(5,6)
      by (rule set_target_mtime [OF assms(1,2,4)])
  qed
  have array: "set_utimes env (JArray (map JString pre)) options s = (Inr (), s1) \<and>
          fs_utimes env t a m (fst s1) = (r, w2) \<longrightarrow>
            set_utimes env (JArray (map JString (pre @ [t]))) options s
              = (r, (w2, snd s1 @ [Utimes t a m])) \<and>
            (\<exists>cs. snd (snd (set_utimes env (JArray (map JString (pre @ t # post))) options s))
                    = snd s1 @ Utimes t a m # cs)"
  proof
    assume h: "set_utimes env (JArray (map JString pre)) options s = (Inr (), s1) \<and>
          fs_utimes env t a m (fst s1) = (r, w2)"
    then have prefix: "set_utimes env (JArray (map JString pre)) options s = (Inr (), s1)"
      and call: "fs_utimes env t a m (fst s1) = (r, w2)" by simp_all
    from call have step: "set_target env tms (getFlags tms) t s1 = (r, (w2, snd s1 @ [Utimes t a m]))"
      unfolding assms(5,6) by (rule set_target_mtime [OF assms(1,2,4)])
    have "set_utimes env (JArray (map JString (pre @ [t]))) options s
              = (r, (w2, snd s1 @ [Utimes t a m]))"
      unfolding set_utimes_from_prefix(1) [OF valid opts nz prefix] by (rule step)
    moreover from set_utimes_goes_on [OF valid opts nz prefix step]
    have "\<exists>cs. snd (snd (set_utimes env (JArray (map JString (pre @ t # post))) options s))
                    = snd s1 @ Utimes t a m # cs" by simp
    ultimately show "set_utimes env (JArray (map JString (pre @ [t]))) options s
              = (r, (w2, snd s1 @ [Utimes t a m])) \<and>
            (\<exists>cs. snd (snd (set_utimes env (JArray (map JString (pre @ t # post))) options s))
                    = snd s1 @ Utimes t a m # cs)" by (rule conjI)
  qed
  from getFullOptions_Inr [OF opts] obtain bv mv av where
    mv: "get_prop options (lit ''mtime'') = Inr mv" "assertTime (lit ''mtime'') mv = Inr ()" and
    av: "get_prop options (lit ''atime'') = Inr av" "assertTime (lit ''atime'') av = Inr ()" and
    tms: "tms = \<lparr>btime = or_zero bv, mtime = or_zero mv, atime = or_zero av\<rparr>"
    by blast
  from assms(4) have "truthy (mtime tms)" unfolding getFlags_bits .
  with tms have "truthy (or_zero mv)" by simp
  from requested_time [OF mv(2) this] mv(1) tms
  have req_m: "get_prop options (lit ''mtime'') = Inr (JNumber (mtime tms))" by simp
  have req_a: "getFlags tms AND 4 \<noteq> 0 \<longrightarrow>
            get_prop options (lit ''atime'') = Inr (JNumber (atime tms))"
  proof
    assume "getFlags tms AND 4 \<noteq> 0"
    then have "truthy (atime tms)" unfolding getFlags_bits .
    with tms have "truthy (or_zero av)" by simp
    from requested_time [OF av(2) this] av(1) tms
    show "get_prop options (lit ''atime'') = Inr (JNumber (atime tms))" by simp
  qed
  from single array req_m req_a show ?thesis by (intro conjI)
qed

theorem mtime_fallback_witness:
  "getFullOptions (JObject [(lit ''mtime'', JNumber (Fin 9000))])
     = Inr \<lparr>btime = Fin 0, mtime = Fin 9000, atime = Fin 0\<rparr> \<and>
   getFlags \<lparr>btime = Fin 0, mtime = Fin 9000, atime = Fin 0\<rparr> AND 2 \<noteq> 0 \<and>
   div1000 (Fin 9000) = Fin 9 \<and>
   set_utimes (ex_env ''linux'' 0) (JArray (map JString [lit ''f'']))
     (JObject [(lit ''mtime'', JNumber (Fin 9000))])
     ([(lit ''f'', Fin 7000, Fin 5000), (lit ''h'', Fin 6000, Fin 5000)], [])
     = (Inr (), ([(lit ''f'', Fin 9000, Fin 9000), (lit ''h'', Fin 6000, Fin 5000)],
                 [Utimes (lit ''f'') (Fin 9) (Fin 9)])) \<and>
   fs_utimes (ex_env ''linux'' 0) (lit ''h'') (Fin 9) (Fin 9)
     [(lit ''f'', Fin 9000, Fin 9000), (lit ''h'', Fin 6000, Fin 5000)]
     = (Inr (), [(lit ''f'', Fin 9000, Fin 9000), (lit ''h'', Fin 9000, Fin 9000)]) \<and>
   set_utimes (ex_env ''linux'' 0) (JArray (map JString ([lit ''f''] @ [lit ''h''])))
     (JObject [(lit ''mtime'', JNumber (Fin 9000))])
     ([(lit ''f'', Fin 7000, Fin 5000), (lit ''h'', Fin 6000, Fin 5000)], [])
     = (Inr (), ([(lit ''f'', Fin 9000, Fin 9000), (lit ''h'', Fin 9000, Fin 9000)],
                 [Utimes (lit ''f'') (Fin 9) (Fin 9), Utimes (lit ''h'') (Fin 9) (Fin 9)]))"
proof -
  let ?env = "ex_env ''linux'' 0"
  let ?opts = "JObject [(lit ''mtime'', JNumber (Fin 9000))]"
  let ?tms = "\<lparr>btime = Fin 0, mtime = Fin 9000, atime = Fin 0\<rparr>"
  let ?s = "([(lit ''f'', Fin 7000, Fin 5000), (lit ''h'', Fin 6000, Fin 5000)], []) :: files state"
  let ?w1 = "[(lit ''f'', Fin 9000, Fin 9000), (lit ''h'', Fin 6000, Fin 5000)] :: files"
  let ?s1 = "(?w1, [Utimes (lit ''f'') (Fin 9) (Fin 9)]) :: files state"
  let ?w2 = "[(lit ''f'', Fin 9000, Fin 9000), (lit ''h'', Fin 9000, Fin 9000)] :: files"
  have p1: "platform ?env \<noteq> lit ''win32''" and p2: "platform ?env \<noteq> lit ''darwin''"
    by (simp_all add: ex_env_def lit_def)
  have opts: "getFullOptions ?opts = Inr ?tms" by (simp add: getFullOptions_def lit_def)
  have bit: "getFlags ?tms AND 2 \<noteq> 0" by (simp add: getFlags_def)
  have a: "Fin 9 = div1000 (if getFlags ?tms AND 4 \<noteq> 0 then atime ?tms else mtime ?tms)"
    by (simp add: getFlags_def)
  have m: "Fin 9 = div1000 (mtime ?tms)" by simp
  have d: "div1000 (Fin 9000) = Fin 9" by simp
  have valid: "\<forall>p\<in>set ([lit ''f''] @ lit ''h'' # []). p \<noteq> [] \<and> 0 \<notin> set p"
    by (simp add: lit_def)
  have prefix: "set_utimes ?env (JArray (map JString [lit ''f''])) ?opts ?s = (Inr (), ?s1)"
    by (simp add: ex_set_defs)
  have call: "fs_utimes ?env (lit ''h'') (Fin 9) (Fin 9) (fst ?s1) = (Inr (), ?w2)"
    by (simp add: ex_defs)
  from mtime_fallback [OF p1 p2 opts bit a m valid, where s = ?s and ?s1.0 = ?s1
      and r = "Inr ()" and ?w2.0 = ?w2] prefix call
  have run: "set_utimes ?env (JArray (map JString ([lit ''f''] @ [lit ''h'']))) ?opts ?s
      = (Inr (), (?w2, snd ?s1 @ [Utimes (lit ''h'') (Fin 9) (Fin 9)]))"
    by blast
  from call have call': "fs_utimes ?env (lit ''h'') (Fin 9) (Fin 9) ?w1 = (Inr (), ?w2)" by simp
  from run have run': "set_utimes ?env (JArray (map JString ([lit ''f''] @ [lit ''h'']))) ?opts ?s
      = (Inr (), (?w2, [Utimes (lit ''f'') (Fin 9) (Fin 9), Utimes (lit ''h'') (Fin 9) (Fin 9)]))"
    by simp
  from opts bit d prefix call' run' show ?thesis by (intro conjI)
qed




text \<open>
  Claim C1, at a request for \<open>btime\<close> alone on \<open>linux\<close>. The flags are 1, so the loop takes
  its last branch: it calls \<open>stat\<close> and then \<open>utimes\<close> with \<open>times.atime / 1000\<close>, which
  is 0. On a file that exists the access time becomes 0; on a path that does not, the call
  is rejected with the error of \<open>stat\<close>.
\<close>

theorem btime_only_fallback_touches_atime:
  "set_utimes (ex_env ''linux'' 0) (JString (lit ''f'')) (JObject [(lit ''btime'', JNumber (Fin 1000))])
     ([(lit ''f'', Fin 7000, Fin 5000)], [])
     = (Inr (), ([(lit ''f'', Fin 7000, Fin 0)],
                 [Stat (lit ''f''), Utimes (lit ''f'') (Fin 0) (Fin 7)])) \<and>
   set_utimes (ex_env ''linux'' 0) (JString (lit ''g'')) (JObject [(lit ''btime'', JNumber (Fin 1000))])
     ([(lit ''f'', Fin 7000, Fin 5000)], [])
     = (Inl (SystemError (lit ''ENOENT'')), ([(lit ''f'', Fin 7000, Fin 5000)], [Stat (lit ''g'')]))"
  by (simp add: set_utimes_def getFullOptions_def getFlags_def ex_defs)

section \<open>Arguments of the wrong type\<close>

text \<open>
  A paths argument that is neither a string nor an array is rejected by \<open>normalizePaths\<close>;
  after valid paths, options whose \<open>typeof\<close> is not \<open>object\<close> are rejected by
  \<open>getFullOptions\<close>.
\<close>

lemma invalid_arguments_rejected:
  "(\<forall>t. paths \<noteq> JString t) \<and> (\<forall>vs. paths \<noteq> JArray vs) \<Longrightarrow>
     set_utimes env paths options s = (Inl (Error (lit ''path must be a string or array'')), s)"
  "normalizePaths paths = Inr targets \<Longrightarrow> typeof options \<noteq> ''object'' \<Longrightarrow>
     set_utimes env paths options s = (Inl (Error (lit ''options must be an object'')), s)"
  by (cases paths; simp add: set_utimes_def getFullOptions_def)+

text \<open>
  Claim C7, at the options \<open>null\<close>. \<open>typeof null\<close> is \<open>object\<close>, so the test of
  \<open>getFullOptions\<close> lets it through, and reading \<open>options.btime\<close> raises the engine's
  \<open>TypeError\<close>: the call is rejected, but not with \<open>options must be an object\<close>.
\<close>

theorem null_options_type_error:
  "typeof JNull = ''object'' \<and>
   getFullOptions JNull = Inl TypeError \<and>
   set_utimes env (JString (lit ''f'')) JNull s = (Inl TypeError, s)"
  by (simp add: set_utimes_def getFullOptions_def lit_def)

section \<open>The path buffer\<close>

text \<open>
  A byte of the encoding is 0 only where the code unit is 0: every other byte that
  \<open>utf8_bytes\<close> writes and each byte of U+FFFD lies between 1 and 255.
\<close>

lemma byte_nonzero: "0 < n \<Longrightarrow> n < 256 \<Longrightarrow> (of_nat n :: 8 word) \<noteq> 0"
  by (auto simp: word_of_nat_eq_0_iff dest: dvd_imp_le)

lemma utf8_bytes_zero_iff:
  assumes "cp < 0x110000"
  shows "0 \<in> set (utf8_bytes cp) \<longleftrightarrow> cp = 0"
proof -
  have d: "cp div 262144 < 5" using assms by simp
  have m: "cp mod 64 < 64" "cp div 64 mod 64 < 64" "cp div 4096 mod 64 < 64" by simp_all
  consider "cp = 0" | "0 < cp" "cp < 0x80" | "0x80 \<le> cp" "cp < 0x800"
    | "0x800 \<le> cp" "cp < 0x10000" | "0x10000 \<le> cp" by linarith
  then show ?thesis
  proof cases
    case 1
    then show ?thesis by (simp add: utf8_bytes_def)
  next
    case 2
    then have "(of_nat cp :: 8 word) \<noteq> 0" by (intro byte_nonzero) simp_all
    with 2 show ?thesis by (simp add: utf8_bytes_def)
  next
    case 3
    then have "cp div 64 < 32" by simp
    then have "(of_nat (0xC0 + cp div 64) :: 8 word) \<noteq> 0"
      "(of_nat (0x80 + cp mod 64) :: 8 word) \<noteq> 0"
      using m by (intro byte_nonzero; simp)+
    with 3 show ?thesis by (simp add: utf8_bytes_def)
  next
    case 4
    then have "cp div 4096 < 16" by simp
    then have "(of_nat (0xE0 + cp div 4096) :: 8 word) \<noteq> 0"
      "(of_nat (0x80 + cp div 64 mod 64) :: 8 word) \<noteq> 0"
      "(of_nat (0x80 + cp mod 64) :: 8 word) \<noteq> 0"
      using m by (intro byte_nonzero; simp)+
    with 4 show ?thesis by (simp add: utf8_bytes_def)
  next
    case 5
    have "(of_nat (0xF0 + cp div 262144) :: 8 word) \<noteq> 0"
      using d by (intro byte_nonzero) simp_all
    moreover have "(of_nat (0x80 + cp div 4096 mod 64) :: 8 word) \<noteq> 0"
      "(of_nat (0x80 + cp div 64 mod 64) :: 8 word) \<noteq> 0"
      "(of_nat (0x80 + cp mod 64) :: 8 word) \<noteq> 0"
      using m by (intro byte_nonzero; simp)+
    ultimately have "0 \<notin> set (utf8_bytes cp)"
      using 5 by (simp add: utf8_bytes_def)
    with 5 show ?thesis by (simp add: utf8_bytes_def)
  qed
qed

lemma surrogate_nonzero: "is_high c \<or> is_low c \<Longrightarrow> c \<noteq> 0"
  by (auto simp: is_high_def is_low_def)

lemma unit_bytes_zero_iff: "0 \<in> set (utf8_bytes (unat (c :: 16 word))) \<longleftrightarrow> c = 0"
proof -
  have "unat c < 2 ^ 16" using unsigned_less [of c] by simp
  then have "unat c < 0x110000" by simp
  then show ?thesis by (simp add: utf8_bytes_zero_iff unat_0_iff del: unsigned_less)
qed

lemma pair_bytes_nonzero:
  assumes "is_high c" and "is_low d"
  shows "0 \<notin> set (utf8_bytes (0x10000 + (unat c - 0xD800) * 0x400 + (unat d - 0xDC00)))"
proof -
  from assms have "unat c - 0xD800 < 0x400" "unat d - 0xDC00 < 0x400"
    by (auto simp: is_high_def is_low_def)
  then have "0x10000 + (unat c - 0xD800) * 0x400 + (unat d - 0xDC00) < 0x110000" by simp
  from utf8_bytes_zero_iff [OF this] show ?thesis by simp
qed

lemma utf8_encode_zero_iff: "0 \<in> set (utf8_encode s) \<longleftrightarrow> 0 \<in> set s"
proof (induction s rule: utf8_encode.induct)
  case 1
  then show ?case by simp
next
  case (2 c)
  then show ?case
    using surrogate_nonzero [of c] unit_bytes_zero_iff [of c] by auto
next
  case (3 c d ds)
  show ?case
  proof (cases "is_high c \<and> is_low d")
    case True
    then have "c \<noteq> 0" "d \<noteq> 0" using surrogate_nonzero by blast+
    with True 3(1) pair_bytes_nonzero [of c d] show ?thesis by auto
  next
    case False
    show ?thesis
    proof (cases "is_high c \<or> is_low c")
      case True
      with False 3(2) surrogate_nonzero [of c] show ?thesis by auto
    next
      case no: False
      with False 3(3) unit_bytes_zero_iff [of c] show ?thesis by auto
    qed
  qed
qed

text \<open>
  \<open>indexOf\<close> on a buffer that ends in the byte sought, and what \<open>pathBuffer\<close> computes:
  the encoding followed by one 0, unless the encoding holds a 0 itself.
\<close>

lemma Buffer_indexOf_first:
  "v \<notin> set xs \<Longrightarrow> Buffer_indexOf (xs @ v # ys) v = int (length xs)"
  by (induction xs) (auto simp: Let_def)

lemma Buffer_indexOf_before:
  "v \<in> set xs \<Longrightarrow> 0 \<le> Buffer_indexOf (xs @ ys) v \<and> Buffer_indexOf (xs @ ys) v < int (length xs)"
  by (induction xs) (auto simp: Let_def)

lemma drop_replicate_last: "drop n (x # replicate n x) = [x]"
  by (induction n) simp_all

lemma pathBuffer_bytes:
  "Buffer_write (Buffer_alloc (byteLength t + 1)) t 0 (length (Buffer_alloc (byteLength t + 1)) - 1)
     = utf8_encode t @ [0]"
  by (simp add: Buffer_write_def Buffer_alloc_def byteLength_def Let_def drop_replicate_last)

lemma pathBuffer_eq:
  "pathBuffer ml target =
     (if 0 \<in> set (utf8_encode (ml target))
      then Inl (Error (lit ''path must be a string without null bytes''))
      else Inr (utf8_encode (ml target) @ [0]))"
proof -
  let ?enc = "utf8_encode (ml target)"
  have buf: "(Buffer_write (Buffer_alloc (byteLength (ml target) + 1)) (ml target) 0
               (length (Buffer_alloc (byteLength (ml target) + 1)) - 1))
             [length (Buffer_write (Buffer_alloc (byteLength (ml target) + 1)) (ml target) 0
               (length (Buffer_alloc (byteLength (ml target) + 1)) - 1)) - 1 := 0] = ?enc @ [0]"
    unfolding pathBuffer_bytes by simp
  have idx: "Buffer_indexOf (?enc @ [0]) 0 \<noteq> int (length (?enc @ [0])) - 1 \<longleftrightarrow> 0 \<in> set ?enc"
    using Buffer_indexOf_first [of 0 ?enc "[]"] Buffer_indexOf_before [of 0 ?enc "[0]"]
    by auto
  show ?thesis
    unfolding pathBuffer_def Let_def buf using idx by simp
qed

text \<open>
  Claim C9. \<open>pathBuffer\<close> fails, with \<open>path must be a string without null bytes\<close>, exactly
  when a byte 0 stands in the buffer before the last position; otherwise it returns the
  buffer, which is the UTF-8 encoding of the long form of the path followed by one byte 0,
  so one byte longer than the encoding. For a target that \<open>assertPath\<close> accepted the
  failure cannot occur, as long as the long form of a path free of the code unit 0 is free
  of it too.
\<close>

theorem pathBuffer_null_check:
  "pathBuffer ml target =
     (if \<exists>i<byteLength (ml target). (utf8_encode (ml target) @ [0]) ! i = 0
      then Inl (Error (lit ''path must be a string without null bytes''))
      else Inr (utf8_encode (ml target) @ [0])) \<and>
   (\<forall>buffer. pathBuffer ml target = Inr buffer \<longrightarrow>
      length buffer = byteLength (ml target) + 1 \<and> buffer ! byteLength (ml target) = 0 \<and>
      take (byteLength (ml target)) buffer = utf8_encode (ml target)) \<and>
   (assertPath key (JString target) = Inr target \<and> (\<forall>p. 0 \<notin> set p \<longrightarrow> 0 \<notin> set (ml p)) \<longrightarrow>
      pathBuffer ml target = Inr (utf8_encode (ml target) @ [0]))"
proof -
  have "(\<exists>i<byteLength (ml target). (utf8_encode (ml target) @ [0]) ! i = 0)
          \<longleftrightarrow> 0 \<in> set (utf8_encode (ml target))"
    by (auto simp: byteLength_def nth_append in_set_conv_nth)
  then have branch: "pathBuffer ml target =
     (if \<exists>i<byteLength (ml target). (utf8_encode (ml target) @ [0]) ! i = 0
      then Inl (Error (lit ''path must be a string without null bytes''))
      else Inr (utf8_encode (ml target) @ [0]))"
    by (simp add: pathBuffer_eq)
  have shape: "\<forall>buffer. pathBuffer ml target = Inr buffer \<longrightarrow>
      length buffer = byteLength (ml target) + 1 \<and> buffer ! byteLength (ml target) = 0 \<and>
      take (byteLength (ml target)) buffer = utf8_encode (ml target)"
  proof (intro allI impI)
    fix buffer assume "pathBuffer ml target = Inr buffer"
    then have "buffer = utf8_encode (ml target) @ [0]"
      by (simp add: pathBuffer_eq split: if_splits)
    then show "length buffer = byteLength (ml target) + 1 \<and> buffer ! byteLength (ml target) = 0 \<and>
        take (byteLength (ml target)) buffer = utf8_encode (ml target)"
      by (simp add: byteLength_def)
  qed
  have unreachable: "assertPath key (JString target) = Inr target \<and>
      (\<forall>p. 0 \<notin> set p \<longrightarrow> 0 \<notin> set (ml p)) \<longrightarrow>
      pathBuffer ml target = Inr (utf8_encode (ml target) @ [0])"
  proof
    assume h: "assertPath key (JString target) = Inr target \<and> (\<forall>p. 0 \<notin> set p \<longrightarrow> 0 \<notin> set (ml p))"
    then have "0 \<notin> set target" by (auto split: if_splits)
    with h have "0 \<notin> set (ml target)" by blast
    then show "pathBuffer ml target = Inr (utf8_encode (ml target) @ [0])"
      by (simp add: pathBuffer_eq utf8_encode_zero_iff)
  qed
  from branch shape unreachable show ?thesis by (intro conjI)
qed

theorem pathBuffer_null_check_witness:
  "assertPath (lit ''path'') (JString [97, 0xD83D, 0xDE00, 0xE9]) = Inr [97, 0xD83D, 0xDE00, 0xE9] \<and>
   utf8_encode [97, 0xD83D, 0xDE00, 0xE9] = [97, 240, 159, 152, 128, 195, 169] \<and>
   pathBuffer (\<lambda>p. p) [97, 0xD83D, 0xDE00, 0xE9] = Inr [97, 240, 159, 152, 128, 195, 169, 0] \<and>
   length [97, 240, 159, 152, 128, 195, 169, 0 :: 8 word] = byteLength [97, 0xD83D, 0xDE00, 0xE9] + 1"
proof -
  let ?t = "[97, 0xD83D, 0xDE00, 0xE9] :: jsstring"
  have a: "assertPath (lit ''path'') (JString ?t) = Inr ?t" by simp
  have m: "\<forall>p :: jsstring. 0 \<notin> set p \<longrightarrow> 0 \<notin> set ((\<lambda>p. p) p)" by simp
  have e: "utf8_encode ?t = [97, 240, 159, 152, 128, 195, 169]"
    by (simp add: utf8_bytes_def is_high_def is_low_def)
  note inst = pathBuffer_null_check [of "\<lambda>p. p" ?t "lit ''path''"]
  from inst a m have "pathBuffer (\<lambda>p. p) ?t = Inr (utf8_encode ?t @ [0])"
    by blast
  then have r: "pathBuffer (\<lambda>p. p) ?t = Inr [97, 240, 159, 152, 128, 195, 169, 0]"
    unfolding e by simp
  from inst r have l: "length [97, 240, 159, 152, 128, 195, 169, 0 :: 8 word] = byteLength ?t + 1"
    by blast
  from a e r l show ?thesis by (intro conjI)
qed

end
